theory Spec2Isabelle
  imports Complex_Main
begin

section \<open>Text: Python \<open>str\<close> as a list of code points\<close>

text \<open>
  A Python \<open>str\<close> is a sequence of Unicode code points. A code point is the integer
  that \<open>ord\<close> gives, and a text is the list of its code points. \<open>lit\<close> gives the code
  points of a literal of the source; they are ASCII in every literal of this program.
\<close>

type_synonym str = "int list"

definition lit :: "string \<Rightarrow> str" where
  "lit s = map of_char s"

text \<open>
  The upper case of a character (one or several characters: \<open>str.upper\<close> uses the full
  case mapping) and the class \<open>\w\<close> of the regular expressions are tables of the Unicode
  database of the interpreter. They are not part of the program: the model takes them as
  a parameter. What is proved of a function that uses them holds for every table, or,
  where the theorem says so, for every table that is the Unicode one on ASCII.
\<close>

record unicode =
  uc_upper :: "int \<Rightarrow> str"
  uc_word :: "int \<Rightarrow> bool"

text \<open>
  What the tables of Unicode do on the ASCII code points: \<open>str.upper\<close> changes exactly
  \<open>a\<close>..\<open>z\<close>, and \<open>\w\<close> is exactly the letters, the digits and the underscore.
  \<open>ascii_tables U\<close> says that the table \<open>U\<close> does so on the code points 0 to 127, and
  \<open>ascii_only s\<close> that the text \<open>s\<close> has no other code point.
\<close>

definition upper_ascii :: "int \<Rightarrow> int" where
  "upper_ascii c = (if 97 \<le> c \<and> c \<le> 122 then c - 32 else c)"

definition word_ascii :: "int \<Rightarrow> bool" where
  "word_ascii c =
     ((48 \<le> c \<and> c \<le> 57) \<or> (65 \<le> c \<and> c \<le> 90) \<or> c = 95 \<or> (97 \<le> c \<and> c \<le> 122))"

definition ascii_tables :: "unicode \<Rightarrow> bool" where
  "ascii_tables U =
     list_all (\<lambda>c. uc_upper U c = [upper_ascii c] \<and> uc_word U c = word_ascii c) [0..127]"

definition ascii_only :: "str \<Rightarrow> bool" where
  "ascii_only s = list_all (\<lambda>c. 0 \<le> c \<and> c < 128) s"

text \<open>
  \<open>str.isspace\<close>, which \<open>strip\<close>, \<open>rstrip\<close> and \<open>split\<close> use: the whitespace of
  Unicode, a fixed list of code points.
\<close>

definition isspace :: "int \<Rightarrow> bool" where
  "isspace c =
     ((9 \<le> c \<and> c \<le> 13) \<or> (28 \<le> c \<and> c \<le> 32) \<or> c = 133 \<or> c = 160 \<or> c = 5760 \<or>
      (8192 \<le> c \<and> c \<le> 8202) \<or> c = 8232 \<or> c = 8233 \<or> c = 8239 \<or> c = 8287 \<or> c = 12288)"

text \<open>\<open>s.upper()\<close>, \<open>s.lstrip()\<close>, \<open>s.rstrip()\<close>, \<open>s.strip()\<close>.\<close>

definition upper :: "unicode \<Rightarrow> str \<Rightarrow> str" where
  "upper U s = concat (map (uc_upper U) s)"

definition lstrip :: "str \<Rightarrow> str" where
  "lstrip s = dropWhile isspace s"

definition rstrip :: "str \<Rightarrow> str" where
  "rstrip s = rev (dropWhile isspace (rev s))"

definition strip :: "str \<Rightarrow> str" where
  "strip s = rstrip (lstrip s)"

text \<open>\<open>s.startswith(p)\<close>, \<open>s.endswith(p)\<close>, \<open>s.count(c)\<close> for a one-character \<open>c\<close>.\<close>

definition startswith :: "str \<Rightarrow> str \<Rightarrow> bool" where
  "startswith s p = (take (length p) s = p)"

definition endswith :: "str \<Rightarrow> str \<Rightarrow> bool" where
  "endswith s p = (length p \<le> length s \<and> drop (length s - length p) s = p)"

definition count_char :: "str \<Rightarrow> int \<Rightarrow> nat" where
  "count_char s c = length (filter (\<lambda>x. x = c) s)"

subsection \<open>The regular expression \<open>\bKEYWORD\b\<close>\<close>

text \<open>
  \<open>\b\<close> holds at position \<open>i\<close> of \<open>s\<close> when exactly one of the characters before and
  at \<open>i\<close> is a word character, the two ends of the string counting as non-word.
  \<open>re.search(r'\b' + keyword + r'\b', s)\<close> looks for a position where the boundary, the
  literal keyword and a second boundary follow each other.
\<close>

definition word_boundary :: "unicode \<Rightarrow> str \<Rightarrow> nat \<Rightarrow> bool" where
  "word_boundary U s i =
     ((0 < i \<and> i \<le> length s \<and> uc_word U (s ! (i - 1))) \<noteq> (i < length s \<and> uc_word U (s ! i)))"

definition match_at :: "unicode \<Rightarrow> str \<Rightarrow> str \<Rightarrow> nat \<Rightarrow> bool" where
  "match_at U keyword s i =
     (word_boundary U s i \<and> i + length keyword \<le> length s \<and>
      take (length keyword) (drop i s) = keyword \<and>
      word_boundary U s (i + length keyword))"

definition re_search_word :: "unicode \<Rightarrow> str \<Rightarrow> str \<Rightarrow> bool" where
  "re_search_word U keyword s = list_ex (match_at U keyword s) [0..<Suc (length s)]"

section \<open>\<open>utils.validate_sql_safety\<close>\<close>

definition dangerous_keywords :: "str list" where
  "dangerous_keywords =
     [lit ''DROP'', lit ''DELETE'', lit ''INSERT'', lit ''UPDATE'',
      lit ''ALTER'', lit ''CREATE'', lit ''TRUNCATE'', lit ''GRANT'',
      lit ''REVOKE'', lit ''EXEC'', lit ''EXECUTE'']"

text \<open>
  The \<open>for\<close> loop returns at the first keyword of the list that the search finds; then
  come the test on the leading \<open>SELECT\<close> and the count of semicolons. The result is the
  pair \<open>(is_valid, error_message)\<close>.
\<close>

definition validate_sql_safety :: "unicode \<Rightarrow> str \<Rightarrow> bool \<times> str" where
  "validate_sql_safety U sql =
     (let sql_upper = upper U sql in
      case find (\<lambda>keyword. re_search_word U keyword sql_upper) dangerous_keywords of
        Some keyword \<Rightarrow> (False, lit ''Dangerous SQL keyword detected: '' @ keyword)
      | None \<Rightarrow>
          if \<not> startswith (strip sql_upper) (lit ''SELECT'')
          then (False, lit ''Query must start with SELECT'')
          else
            let semicolon_count = count_char sql 59 in
            if semicolon_count > 1
            then (False, lit ''Multiple SQL statements not allowed'')
            else if semicolon_count = 1 \<and> \<not> endswith (rstrip sql) (lit '';'')
            then (False, lit ''Multiple SQL statements not allowed'')
            else (True, []))"

text \<open>
  The specification's wording of the first rule: the text contains the keyword, in any
  case, as a standalone word. It is stated on the text as given, by cutting it into what
  precedes the word, the word and what follows.
\<close>

definition standalone_word :: "unicode \<Rightarrow> str \<Rightarrow> str \<Rightarrow> bool" where
  "standalone_word U keyword sql =
     (\<exists>pre w post. sql = pre @ w @ post \<and> upper U w = keyword \<and>
        (pre = [] \<or> \<not> uc_word U (last pre)) \<and>
        (post = [] \<or> \<not> uc_word U (hd post)))"

section \<open>\<open>BedrockClient._extract_sql_from_response\<close>\<close>

text \<open>
  \<open>sql.split('\n', 1)[1]\<close>, for a text that contains a newline (code point 10), is what
  follows the first newline. \<open>sql.rsplit(sep, 1)[0]\<close> is what precedes the last
  occurrence of \<open>sep\<close>, and the whole text when there is none.
\<close>

definition after_first_newline :: "str \<Rightarrow> str" where
  "after_first_newline s = tl (dropWhile (\<lambda>c. c \<noteq> 10) s)"

definition rfind :: "str \<Rightarrow> str \<Rightarrow> nat option" where
  "rfind s sep =
     find (\<lambda>i. take (length sep) (drop i s) = sep) (rev [0..<Suc (length s - length sep)])"

definition rsplit_head :: "str \<Rightarrow> str \<Rightarrow> str" where
  "rsplit_head s sep = (case rfind s sep of Some i \<Rightarrow> take i s | None \<Rightarrow> s)"

definition fence :: str where
  "fence = lit ''```''"

definition extract_sql_from_response :: "str \<Rightarrow> str" where
  "extract_sql_from_response response =
     (let sql = strip response;
          sql = (if startswith sql fence
                 then (let sql = (if 10 \<in> set sql
                                  then after_first_newline sql else sql)
                       in if endswith sql fence then rsplit_head sql fence else sql)
                 else sql)
      in strip sql)"

section \<open>\<open>utils.truncate_results\<close>\<close>

text \<open>
  The slice \<open>xs[:m]\<close> of Python: the first \<open>m\<close> elements for \<open>m \<ge> 0\<close>, and all
  but the last \<open>-m\<close> for a negative \<open>m\<close>.
\<close>

definition slice_to :: "'a list \<Rightarrow> int \<Rightarrow> 'a list" where
  "slice_to xs m = (if 0 \<le> m then take (nat m) xs else take (nat (int (length xs) + m)) xs)"

definition truncate_results :: "'a list \<Rightarrow> int \<Rightarrow> 'a list \<times> bool" where
  "truncate_results results max_rows =
     (let was_truncated = (int (length results) > max_rows)
      in (slice_to results max_rows, was_truncated))"

section \<open>Exceptions, configuration and the warehouse\<close>

text \<open>
  An exception is known by the name of its class (\<open>type(e).__name__\<close>), by whether it is
  an instance of \<open>ValueError\<close>, and by its text (\<open>str(e)\<close>).
\<close>

datatype exn = Exn (exn_type: str) (is_value_error: bool) (exn_str: str)

record config =
  MAX_QUERY_TIMEOUT :: int
  MAX_RESULT_ROWS :: int
  REDSHIFT_SCHEMA :: str

text \<open>
  A result row is a dictionary from column names to values. A connection is known by a
  number. What the database does during one call of \<open>execute_query\<close> is a \<open>db_reply\<close>:
  how each of the five calls on the pool, the connection and the cursor ends. The
  warehouse gives the reply to the \<open>n\<close>-th query of a schema fetch.
\<close>

type_synonym row = "(str \<times> str) list"

type_synonym conn = nat

record db_reply =
  on_getconn :: "exn + conn"
  on_cursor :: "exn option"
  on_set_timeout :: "exn option"
  on_execute :: "exn option"
  on_fetchall :: "exn + row list"

type_synonym warehouse = "nat \<Rightarrow> str \<Rightarrow> str list \<Rightarrow> db_reply"

text \<open>
  The calls that returned, in order: the trace of a run. \<open>GetConn\<close> and \<open>PutConn\<close> are
  \<open>connection_pool.getconn()\<close> and \<open>connection_pool.putconn(conn)\<close>; \<open>SchemaFetch\<close>
  marks a call of \<open>RedShiftClient.get_schema\<close>.
\<close>

datatype event =
    SchemaFetch "str option"
  | GetConn conn
  | PutConn conn
  | OpenCursor conn
  | CloseCursor conn
  | SetTimeout conn int
  | Execute conn str "str list option"
  | FetchAll conn

text \<open>The client: \<open>connection_pool\<close> is \<open>None\<close> when the pool could not be created.\<close>

record client =
  pool_initialized :: bool

section \<open>\<open>RedShiftClient.execute_query\<close>\<close>

definition schema_prefixes :: "str list" where
  "schema_prefixes = [lit ''SELECT TABLE_SCHEMA'', lit ''SELECT COLUMN_NAME'']"

text \<open>\<open>sql.strip().upper().startswith(schema_prefixes)\<close>: the validator is skipped.\<close>

definition skips_validation :: "unicode \<Rightarrow> str \<Rightarrow> bool" where
  "skips_validation U sql = list_ex (startswith (upper U (strip sql))) schema_prefixes"

text \<open>\<open>timeout_seconds or Config.MAX_QUERY_TIMEOUT\<close>, times 1000.\<close>

definition timeout_ms :: "config \<Rightarrow> int option \<Rightarrow> int" where
  "timeout_ms cfg timeout_seconds =
     (case timeout_seconds of
        None \<Rightarrow> MAX_QUERY_TIMEOUT cfg
      | Some t \<Rightarrow> if t \<noteq> 0 then t else MAX_QUERY_TIMEOUT cfg) * 1000"

text \<open>\<open>if params:\<close> an empty tuple counts as no parameters.\<close>

definition given_params :: "str list option \<Rightarrow> str list option" where
  "given_params params = (case params of Some (p # ps) \<Rightarrow> Some (p # ps) | _ \<Rightarrow> None)"

definition limit_results :: "config \<Rightarrow> row list \<Rightarrow> row list" where
  "limit_results cfg results_list =
     (if int (length results_list) > MAX_RESULT_ROWS cfg
      then slice_to results_list (MAX_RESULT_ROWS cfg)
      else results_list)"

text \<open>
  The body of the \<open>try\<close>: its outcome, its trace, and the variables \<open>conn\<close> and
  \<open>cursor\<close> as the \<open>finally\<close> block finds them. Both \<open>except\<close> clauses log and
  re-raise, so the outcome of a failed step is its exception.
\<close>

definition get_connection :: "client \<Rightarrow> db_reply \<Rightarrow> exn + conn" where
  "get_connection cl db =
     (if \<not> pool_initialized cl
      then Inl (Exn (lit ''Exception'') False (lit ''Connection pool not initialized''))
      else on_getconn db)"

definition execute_try ::
  "client \<Rightarrow> config \<Rightarrow> db_reply \<Rightarrow> str \<Rightarrow> str list option \<Rightarrow> int option \<Rightarrow>
     (exn + row list) \<times> event list \<times> conn option \<times> bool" where
  "execute_try cl cfg db sql params timeout_seconds =
     (case get_connection cl db of
        Inl e \<Rightarrow> (Inl e, [], None, False)
      | Inr c \<Rightarrow>
         (case on_cursor db of
            Some e \<Rightarrow> (Inl e, [GetConn c], Some c, False)
          | None \<Rightarrow>
             (case on_set_timeout db of
                Some e \<Rightarrow> (Inl e, [GetConn c, OpenCursor c], Some c, True)
              | None \<Rightarrow>
                 (let t1 = [GetConn c, OpenCursor c, SetTimeout c (timeout_ms cfg timeout_seconds)]
                  in case on_execute db of
                       Some e \<Rightarrow> (Inl e, t1, Some c, True)
                     | None \<Rightarrow>
                        (let t2 = t1 @ [Execute c sql (given_params params)]
                         in case on_fetchall db of
                              Inl e \<Rightarrow> (Inl e, t2, Some c, True)
                            | Inr results \<Rightarrow>
                               (Inr (limit_results cfg results), t2 @ [FetchAll c],
                                Some c, True))))))"

text \<open>
  \<open>return_connection\<close> and the \<open>finally\<close> block. The cursor is a client-side cursor (it
  has no name), whose \<open>close()\<close> does not raise.
\<close>

definition return_connection :: "conn option \<Rightarrow> event list" where
  "return_connection conn = (case conn of Some c \<Rightarrow> [PutConn c] | None \<Rightarrow> [])"

definition execute_finally :: "conn option \<Rightarrow> bool \<Rightarrow> event list" where
  "execute_finally conn cursor =
     (case conn of
        None \<Rightarrow> []
      | Some c \<Rightarrow> (if cursor then [CloseCursor c] else []) @ return_connection (Some c))"

definition execute_query ::
  "unicode \<Rightarrow> client \<Rightarrow> config \<Rightarrow> db_reply \<Rightarrow> str \<Rightarrow> str list option \<Rightarrow> int option \<Rightarrow>
     (exn + row list) \<times> event list" where
  "execute_query U cl cfg db sql params timeout_seconds =
     (if \<not> skips_validation U sql \<and> \<not> fst (validate_sql_safety U sql)
      then (Inl (Exn (lit ''ValueError'') True
                  (lit ''Unsafe SQL query: '' @ snd (validate_sql_safety U sql))), [])
      else
        (case execute_try cl cfg db sql params timeout_seconds of
           (outcome, trace, conn, cursor) \<Rightarrow> (outcome, trace @ execute_finally conn cursor)))"

section \<open>\<open>RedShiftClient.get_schema\<close>\<close>

text \<open>The three introspection statements, as the source writes them.\<close>

definition tables_sql_target :: str where
  "tables_sql_target =
     lit (
       ''\<newline>'' @
       ''                    SELECT table_schema, table_name\<newline>'' @
       ''                    FROM information_schema.tables\<newline>'' @
       ''                    WHERE table_type = 'BASE TABLE'\<newline>'' @
       ''                        AND table_schema = %s\<newline>'' @
       ''                    ORDER BY table_name\<newline>'' @
       ''                    LIMIT 100\<newline>'' @
       ''                '')"

definition tables_sql_default :: str where
  "tables_sql_default =
     lit (
       ''\<newline>'' @
       ''                    SELECT table_schema, table_name\<newline>'' @
       ''                    FROM information_schema.tables\<newline>'' @
       ''                    WHERE table_type = 'BASE TABLE'\<newline>'' @
       ''                        AND table_schema NOT IN (\<newline>'' @
       ''                            'information_schema',\<newline>'' @
       ''                            'pg_catalog',\<newline>'' @
       ''                            'pg_internal'\<newline>'' @
       ''                        )\<newline>'' @
       ''                        AND table_schema LIKE 'public%'\<newline>'' @
       ''                    ORDER BY table_schema, table_name\<newline>'' @
       ''                    LIMIT 50\<newline>'' @
       ''                '')"

definition columns_sql :: str where
  "columns_sql =
     lit (
       ''\<newline>'' @
       ''                    SELECT\<newline>'' @
       ''                        column_name,\<newline>'' @
       ''                        data_type,\<newline>'' @
       ''                        is_nullable\<newline>'' @
       ''                    FROM information_schema.columns\<newline>'' @
       ''                    WHERE table_schema = %s\<newline>'' @
       ''                        AND table_name = %s\<newline>'' @
       ''                    ORDER BY ordinal_position\<newline>'' @
       ''                '')"

text \<open>
  The snapshot \<open>{'tables': [...]}\<close>: the list of its tables, each with the name
  \<open>schema.table\<close> and its columns.
\<close>

record column_info =
  col_name :: str
  col_type :: str
  col_nullable :: bool

record table_info =
  tbl_name :: str
  tbl_columns :: "column_info list"

type_synonym schema_info = "table_info list"

text \<open>\<open>row[key]\<close> raises \<open>KeyError\<close> on a key that the row does not have.\<close>

definition getitem :: "row \<Rightarrow> str \<Rightarrow> exn + str" where
  "getitem r k =
     (case map_of r k of
        Some v \<Rightarrow> Inr v
      | None \<Rightarrow> Inl (Exn (lit ''KeyError'') False ([39] @ k @ [39])))"

definition make_column :: "row \<Rightarrow> exn + column_info" where
  "make_column col =
     (case getitem col (lit ''column_name'') of
        Inl e \<Rightarrow> Inl e
      | Inr n \<Rightarrow>
         (case getitem col (lit ''data_type'') of
            Inl e \<Rightarrow> Inl e
          | Inr t \<Rightarrow>
             (case getitem col (lit ''is_nullable'') of
                Inl e \<Rightarrow> Inl e
              | Inr nl \<Rightarrow>
                 Inr \<lparr>col_name = n, col_type = t, col_nullable = (nl = lit ''YES'')\<rparr>)))"

fun make_columns :: "row list \<Rightarrow> exn + column_info list" where
  "make_columns [] = Inr []"
| "make_columns (col # columns) =
     (case make_column col of
        Inl e \<Rightarrow> Inl e
      | Inr c \<Rightarrow> (case make_columns columns of Inl e \<Rightarrow> Inl e | Inr cs \<Rightarrow> Inr (c # cs)))"

text \<open>
  The loop over the listed tables. \<open>n\<close> numbers the queries of the fetch, \<open>acc\<close> is
  \<open>schema_info['tables']\<close> so far. The first exception ends the loop.
\<close>

fun fetch_columns ::
  "unicode \<Rightarrow> client \<Rightarrow> config \<Rightarrow> warehouse \<Rightarrow> nat \<Rightarrow> row list \<Rightarrow> table_info list \<Rightarrow>
     (exn + table_info list) \<times> event list" where
  "fetch_columns U cl cfg wh n [] acc = (Inr acc, [])"
| "fetch_columns U cl cfg wh n (table # tables) acc =
     (case getitem table (lit ''table_schema'') of
        Inl e \<Rightarrow> (Inl e, [])
      | Inr table_schema \<Rightarrow>
         (case getitem table (lit ''table_name'') of
            Inl e \<Rightarrow> (Inl e, [])
          | Inr table_name \<Rightarrow>
             (let full_table_name = table_schema @ lit ''.'' @ table_name;
                  params = [table_schema, table_name]
              in case execute_query U cl cfg (wh n columns_sql params) columns_sql
                        (Some params) (Some 120) of
                   (Inl e, tr) \<Rightarrow> (Inl e, tr)
                 | (Inr columns, tr) \<Rightarrow>
                    (case make_columns columns of
                       Inl e \<Rightarrow> (Inl e, tr)
                     | Inr cols \<Rightarrow>
                        (case fetch_columns U cl cfg wh (Suc n) tables
                                (acc @ [\<lparr>tbl_name = full_table_name, tbl_columns = cols\<rparr>]) of
                           (r, tr') \<Rightarrow> (r, tr @ tr'))))))"

text \<open>
  The body of the \<open>try\<close> of \<open>get_schema\<close>; \<open>if target_schema:\<close> fails on
  \<open>None\<close> and on the empty string.
\<close>

definition list_tables ::
  "unicode \<Rightarrow> client \<Rightarrow> config \<Rightarrow> warehouse \<Rightarrow> str option \<Rightarrow>
     (exn + row list) \<times> event list" where
  "list_tables U cl cfg wh target_schema =
     (case target_schema of
        Some (c # cs) \<Rightarrow>
          execute_query U cl cfg (wh 0 tables_sql_target [c # cs]) tables_sql_target
            (Some [c # cs]) (Some 120)
      | _ \<Rightarrow>
          execute_query U cl cfg (wh 0 tables_sql_default []) tables_sql_default None (Some 120))"

definition get_schema_try ::
  "unicode \<Rightarrow> client \<Rightarrow> config \<Rightarrow> warehouse \<Rightarrow> str option \<Rightarrow>
     (exn + schema_info) \<times> event list" where
  "get_schema_try U cl cfg wh target_schema =
     (case list_tables U cl cfg wh target_schema of
        (Inl e, tr) \<Rightarrow> (Inl e, tr)
      | (Inr tables, tr) \<Rightarrow>
         (case fetch_columns U cl cfg wh 1 tables [] of (r, tr') \<Rightarrow> (r, tr @ tr')))"

text \<open>\<open>except Exception\<close>: any failure is logged and the empty snapshot returned.\<close>

definition get_schema ::
  "unicode \<Rightarrow> client \<Rightarrow> config \<Rightarrow> warehouse \<Rightarrow> str option \<Rightarrow>
     schema_info \<times> event list" where
  "get_schema U cl cfg wh target_schema =
     (case get_schema_try U cl cfg wh target_schema of
        (Inl e, tr) \<Rightarrow> ([], SchemaFetch target_schema # tr)
      | (Inr tables, tr) \<Rightarrow> (tables, SchemaFetch target_schema # tr))"

section \<open>\<open>QueryGenerator._get_schema_info\<close>\<close>

text \<open>
  The two fields of the generator that the cache uses, for a generator whose two
  clients were created. \<open>current_time\<close> is what \<open>time.time()\<close> returns at the call;
  times are real numbers of seconds.
\<close>

record generator =
  schema_cache :: "schema_info option"
  schema_cache_time :: "real option"

definition cache_duration :: real where
  "cache_duration = 300"

text \<open>The fetch of a fresh snapshot, which is stored with the time of the call.\<close>

definition refresh_schema ::
  "unicode \<Rightarrow> generator \<Rightarrow> client \<Rightarrow> config \<Rightarrow> warehouse \<Rightarrow> real \<Rightarrow>
     schema_info \<times> generator \<times> event list" where
  "refresh_schema U g cl cfg wh current_time =
     (case get_schema U cl cfg wh (Some (REDSHIFT_SCHEMA cfg)) of
        (s, tr) \<Rightarrow>
          (s, g\<lparr>schema_cache := Some s, schema_cache_time := Some current_time\<rparr>, tr))"

definition get_schema_info ::
  "unicode \<Rightarrow> generator \<Rightarrow> client \<Rightarrow> config \<Rightarrow> warehouse \<Rightarrow> real \<Rightarrow>
     schema_info \<times> generator \<times> event list" where
  "get_schema_info U g cl cfg wh current_time =
     (case (schema_cache g, schema_cache_time g) of
        (Some s, Some t) \<Rightarrow>
          if current_time - t < cache_duration
          then (s, g, [])
          else refresh_schema U g cl cfg wh current_time
      | _ \<Rightarrow> refresh_schema U g cl cfg wh current_time)"

section \<open>\<open>utils.sanitize_sql\<close>\<close>

text \<open>
  \<open>re.sub(r'--.*$', '', sql, flags=re.MULTILINE)\<close>: from each \<open>--\<close> to the end of its
  line, the newline staying.
\<close>

function strip_line_comments :: "str \<Rightarrow> str" where
  "strip_line_comments [] = []"
| "strip_line_comments [c] = [c]"
| "strip_line_comments (a # b # cs) =
     (if a = 45 \<and> b = 45
      then strip_line_comments (dropWhile (\<lambda>c. c \<noteq> 10) cs)
      else a # strip_line_comments (b # cs))"
  by pat_completeness auto
termination
  by (relation "measure length")
     (auto simp: less_Suc_eq_le intro: le_SucI length_dropWhile_le)

text \<open>
  \<open>re.sub(r'/\*.*?\*/', '', sql, flags=re.DOTALL)\<close>: from each \<open>/*\<close> to the first
  \<open>*/\<close> after it; a \<open>/*\<close> that is never closed stays.
\<close>

fun find_block_end :: "str \<Rightarrow> str option" where
  "find_block_end [] = None"
| "find_block_end [c] = None"
| "find_block_end (a # b # cs) =
     (if a = 42 \<and> b = 47 then Some cs else find_block_end (b # cs))"

lemma find_block_end_shorter: "find_block_end cs = Some rest \<Longrightarrow> length rest < length cs"
  by (induction cs arbitrary: rest rule: find_block_end.induct) (auto split: if_splits)

function strip_block_comments :: "str \<Rightarrow> str" where
  "strip_block_comments [] = []"
| "strip_block_comments [c] = [c]"
| "strip_block_comments (a # b # cs) =
     (if a = 47 \<and> b = 42
      then (case find_block_end cs of
              Some rest \<Rightarrow> strip_block_comments rest
            | None \<Rightarrow> a # strip_block_comments (b # cs))
      else a # strip_block_comments (b # cs))"
  by pat_completeness auto
termination
  by (relation "measure length") (auto dest: find_block_end_shorter)

text \<open>\<open>' '.join(sql.split())\<close>: the words between runs of whitespace, one space apart.\<close>

fun split_words :: "str \<Rightarrow> str \<Rightarrow> str list" where
  "split_words [] cur = (if cur = [] then [] else [cur])"
| "split_words (c # cs) cur =
     (if isspace c
      then (if cur = [] then split_words cs [] else cur # split_words cs [])
      else split_words cs (cur @ [c]))"

fun join_space :: "str list \<Rightarrow> str" where
  "join_space [] = []"
| "join_space [w] = w"
| "join_space (w # v # ws) = w @ lit '' '' @ join_space (v # ws)"

definition sanitize_sql :: "str \<Rightarrow> str" where
  "sanitize_sql sql =
     (let sql = strip_line_comments sql;
          sql = strip_block_comments sql;
          sql = join_space (split_words sql [])
      in strip sql)"

section \<open>\<open>utils.format_error_message\<close>\<close>

definition friendly_messages :: "(str \<times> str) list" where
  "friendly_messages =
     [(lit ''OperationalError'',
         lit ''Database connection error. Please check your connection settings.''),
      (lit ''ProgrammingError'',
         lit ''Invalid SQL query generated. Please try rephrasing your question.''),
      (lit ''TimeoutError'',
         lit ''Query took too long to execute. Please try a more specific question.'')]"

definition format_error_message :: "exn \<Rightarrow> bool \<Rightarrow> str" where
  "format_error_message error user_friendly =
     (if user_friendly
      then (case map_of friendly_messages (exn_type error) of
              Some m \<Rightarrow> m
            | None \<Rightarrow> lit ''An error occurred while processing your request. Please try again.'')
      else exn_str error)"

section \<open>The calls of the language model\<close>

text \<open>
  What the model service does during one request: how the call that asks for the SQL
  ends, and how the call that asks for the worded answer ends. The prompts are not
  modelled; the reply of the service is any text or any exception.
\<close>

record bedrock_reply =
  on_generate :: "exn + str"
  on_format :: "exn + str"

definition generate_sql :: "bedrock_reply \<Rightarrow> exn + str" where
  "generate_sql br =
     (case on_generate br of
        Inl e \<Rightarrow> Inl e
      | Inr response \<Rightarrow> Inr (extract_sql_from_response response))"

text \<open>\<open>str(count)\<close>, the decimal digits of a natural number.\<close>

fun str_nat :: "nat \<Rightarrow> str" where
  "str_nat n =
     (if n < 10 then [48 + int n]
      else str_nat (n div 10) @ [48 + int (n mod 10)])"

declare str_nat.simps [simp del]

definition create_fallback_response :: "row list \<Rightarrow> str" where
  "create_fallback_response query_results =
     (if query_results = [] then lit ''No results found for your query.''
      else lit ''Found '' @ str_nat (length query_results) @
           lit '' result(s). Please see the data table below.'')"

definition format_response :: "bedrock_reply \<Rightarrow> row list \<Rightarrow> str" where
  "format_response br query_results =
     (case on_format br of
        Inr response \<Rightarrow> response
      | Inl e \<Rightarrow> create_fallback_response query_results)"

section \<open>\<open>QueryGenerator.generate_and_execute\<close>\<close>

text \<open>The dictionary that the request returns.\<close>

record envelope =
  response :: str
  sql_query :: "str option"
  results :: "row list"
  execution_time :: real
  error :: "str option"

text \<open>The two \<open>except\<close> clauses: \<open>ValueError\<close> first, then any other exception.\<close>

definition failure_envelope :: "exn \<Rightarrow> real \<Rightarrow> envelope" where
  "failure_envelope e elapsed =
     (if is_value_error e
      then \<lparr>response = lit ''I couldn't generate a safe query for that request. '' @ exn_str e,
            sql_query = None, results = [], execution_time = elapsed,
            error = Some (exn_str e)\<rparr>
      else \<lparr>response = format_error_message e True,
            sql_query = None, results = [], execution_time = elapsed,
            error = Some (exn_str e)\<rparr>)"

text \<open>
  \<open>start_time\<close>, \<open>schema_time\<close> and \<open>end_time\<close> are the readings of the clock at
  the start of the request, inside \<open>_get_schema_info\<close> and when the envelope is built;
  \<open>wh\<close> answers a schema fetch and \<open>db\<close> the generated query. The result is the
  envelope, the generator with its cache, and the trace.
\<close>

definition generate_and_execute ::
  "unicode \<Rightarrow> generator \<Rightarrow> client \<Rightarrow> config \<Rightarrow> warehouse \<Rightarrow> bedrock_reply \<Rightarrow> db_reply \<Rightarrow>
     real \<Rightarrow> real \<Rightarrow> real \<Rightarrow> envelope \<times> generator \<times> event list" where
  "generate_and_execute U g cl cfg wh br db start_time schema_time end_time =
     (case get_schema_info U g cl cfg wh schema_time of
        (schema_info, g', tr) \<Rightarrow>
          if schema_info = []
          then (\<lparr>response =
                    lit ''Unable to retrieve database schema. Please check your RedShift connection.'',
                  sql_query = None, results = [], execution_time = end_time - start_time,
                  error = Some (lit ''Schema retrieval failed'')\<rparr>, g', tr)
          else
            (case generate_sql br of
               Inl e \<Rightarrow> (failure_envelope e (end_time - start_time), g', tr)
             | Inr generated \<Rightarrow>
                (let sql = sanitize_sql generated
                 in case execute_query U cl cfg db sql None None of
                      (Inl e, tr') \<Rightarrow> (failure_envelope e (end_time - start_time), g', tr @ tr')
                    | (Inr rows, tr') \<Rightarrow>
                        (\<lparr>response = format_response br rows,
                          sql_query = Some sql, results = rows,
                          execution_time = end_time - start_time,
                          error = None\<rparr>, g', tr @ tr'))))"

section \<open>Notions used to state the properties\<close>

text \<open>Some blocked verb stands in the text as a standalone word.\<close>

definition has_blocked_keyword :: "unicode \<Rightarrow> str \<Rightarrow> bool" where
  "has_blocked_keyword U sql = (\<exists>k\<in>set dangerous_keywords. standalone_word U k sql)"

text \<open>
  The first two rules of the policy, as the specification words them. The first rule
  rejects when the upper-cased text contains a blocked verb as a standalone word: the
  verb stands in it between two places that are each an end of the text or a non-word
  character. The second rule rejects when the trimmed upper-cased text does not start
  with \<open>SELECT\<close>.
\<close>

definition occurs_as_word :: "unicode \<Rightarrow> str \<Rightarrow> str \<Rightarrow> bool" where
  "occurs_as_word U keyword u =
     (\<exists>pre post. u = pre @ keyword @ post \<and>
        (pre = [] \<or> \<not> uc_word U (last pre)) \<and>
        (post = [] \<or> \<not> uc_word U (hd post)))"

definition keyword_rule_rejects :: "unicode \<Rightarrow> str \<Rightarrow> bool" where
  "keyword_rule_rejects U sql = (\<exists>k\<in>set dangerous_keywords. occurs_as_word U k (upper U sql))"

definition select_rule_rejects :: "unicode \<Rightarrow> str \<Rightarrow> bool" where
  "select_rule_rejects U sql = (\<not> startswith (strip (upper U sql)) (lit ''SELECT''))"

text \<open>A keyword that starts and ends with a word character, as every blocked verb does.\<close>

definition keyword_shape :: "unicode \<Rightarrow> str \<Rightarrow> bool" where
  "keyword_shape U k = (k \<noteq> [] \<and> uc_word U (hd k) \<and> uc_word U (last k))"

text \<open>The calls on the pool in a trace, and the number of schema fetches in it.\<close>

fun is_pool_event :: "event \<Rightarrow> bool" where
  "is_pool_event (GetConn c) = True"
| "is_pool_event (PutConn c) = True"
| "is_pool_event e = False"

definition pool_events :: "event list \<Rightarrow> event list" where
  "pool_events tr = filter is_pool_event tr"

fun is_schema_fetch :: "event \<Rightarrow> bool" where
  "is_schema_fetch (SchemaFetch t) = True"
| "is_schema_fetch e = False"

definition schema_fetches :: "event list \<Rightarrow> nat" where
  "schema_fetches tr = length (filter is_schema_fetch tr)"

text \<open>
  A scan of the text in one pass, used to evaluate the first rule on a given text:
  \<open>keyword_here U k s\<close> holds when \<open>s\<close> starts with \<open>k\<close> and a non-word character or
  the end follows; \<open>scan_keywords U pw ks s\<close> looks for such a start after a non-word
  character, \<open>pw\<close> telling whether the character before \<open>s\<close> is a word character.
  \<open>found\<close> is what the scan decides.
\<close>

fun keyword_here :: "unicode \<Rightarrow> str \<Rightarrow> str \<Rightarrow> bool" where
  "keyword_here U [] rest = (case rest of [] \<Rightarrow> True | c # cs \<Rightarrow> \<not> uc_word U c)"
| "keyword_here U (a # k) [] = False"
| "keyword_here U (a # k) (c # cs) = (a = c \<and> keyword_here U k cs)"

fun scan_keywords :: "unicode \<Rightarrow> bool \<Rightarrow> str list \<Rightarrow> str \<Rightarrow> bool" where
  "scan_keywords U pw ks [] = False"
| "scan_keywords U pw ks (c # cs) =
     (if \<not> pw \<and> list_ex (\<lambda>k. keyword_here U k (c # cs)) ks then True
      else scan_keywords U (uc_word U c) ks cs)"

definition found :: "unicode \<Rightarrow> bool \<Rightarrow> str list \<Rightarrow> str \<Rightarrow> bool" where
  "found U pw ks u =
     (\<exists>k\<in>set ks. \<exists>pre post. u = pre @ k @ post \<and>
        (if pre = [] then \<not> pw else \<not> uc_word U (last pre)) \<and>
        (post = [] \<or> \<not> uc_word U (hd post)))"

text \<open>The cache still holds: a snapshot and its time are stored and the time to live has not run out.\<close>

definition cache_fresh :: "generator \<Rightarrow> real \<Rightarrow> bool" where
  "cache_fresh g current_time =
     (case (schema_cache g, schema_cache_time g) of
        (Some s, Some t) \<Rightarrow> current_time - t < cache_duration
      | _ \<Rightarrow> False)"

section \<open>An excerpt of the Unicode tables, for the examples\<close>

text \<open>
  The code points 0 to 255 (ASCII and Latin-1) and six others, as the Unicode database
  has them. In Latin-1 the upper case of a small letter is 32 below it, except that the
  upper case of the sharp s (223) is \<open>SS\<close>, that of the micro sign (181) is U+039C (924)
  and that of the y with diaeresis (255) is U+0178 (376); the word characters of Latin-1
  are its letters, the two ordinal indicators, the superscript digits and the fractions.
  U+0345 (837, the combining Greek ypogegrammeni) is not a word character and its upper
  case is the letter U+0399 (921, the Greek capital iota), a word character that is its
  own upper case; U+1E97 (7831, the letter t with diaeresis) is a word character whose
  upper case is the two characters \<open>T\<close> and U+0308 (776, the combining diaeresis), which
  is not a word character. The examples use no other character.
\<close>

definition example_unicode :: unicode where
  "example_unicode =
     \<lparr>uc_upper =
        (\<lambda>c. if c = 837 then [921]
             else if c = 7831 then [84, 776]
             else if c = 181 then [924]
             else if c = 223 then [83, 83]
             else if c = 255 then [376]
             else if (224 \<le> c \<and> c \<le> 246) \<or> (248 \<le> c \<and> c \<le> 254) then [c - 32]
             else [upper_ascii c]),
      uc_word =
        (\<lambda>c. word_ascii c \<or> c = 170 \<or> c = 178 \<or> c = 179 \<or> c = 181 \<or> c = 185 \<or> c = 186 \<or>
             (188 \<le> c \<and> c \<le> 190) \<or> (192 \<le> c \<and> c \<le> 214) \<or> (216 \<le> c \<and> c \<le> 246) \<or>
             (248 \<le> c \<and> c \<le> 255) \<or> c = 376 \<or> c = 921 \<or> c = 924 \<or> c = 7831)\<rparr>"

section \<open>A concrete installation, for the examples\<close>

text \<open>
  A configuration with a cap of 300 rows, a client whose pool exists, a database that
  hands out connection 7 and answers every query with the given rows, and one that
  fails when the statement is executed.
\<close>

definition example_config :: config where
  "example_config =
     \<lparr>MAX_QUERY_TIMEOUT = 30, MAX_RESULT_ROWS = 300, REDSHIFT_SCHEMA = lit ''public''\<rparr>"

definition example_client :: client where
  "example_client = \<lparr>pool_initialized = True\<rparr>"

definition example_rows :: "nat \<Rightarrow> row list" where
  "example_rows n = map (\<lambda>i. [(lit ''id'', str_nat i)]) [0..<n]"

definition db_returning :: "row list \<Rightarrow> db_reply" where
  "db_returning rows =
     \<lparr>on_getconn = Inr 7, on_cursor = None, on_set_timeout = None, on_execute = None,
      on_fetchall = Inr rows\<rparr>"

definition db_failing :: "exn \<Rightarrow> db_reply" where
  "db_failing e =
     \<lparr>on_getconn = Inr 7, on_cursor = None, on_set_timeout = None, on_execute = Some e,
      on_fetchall = Inr []\<rparr>"

definition example_trace :: "event list" where
  "example_trace =
     [GetConn 7, OpenCursor 7, SetTimeout 7 30000, Execute 7 (lit ''SELECT id FROM t'') None,
      FetchAll 7, CloseCursor 7, PutConn 7]"

definition failure_trace :: "event list" where
  "failure_trace = [GetConn 7, OpenCursor 7, SetTimeout 7 30000, CloseCursor 7, PutConn 7]"

text \<open>
  A warehouse with the one table \<open>public.orders\<close>, whose columns are the given rows; the
  snapshot and the trace of a fetch from it; a generator as \<open>__init__\<close> leaves it.
\<close>

definition orders_warehouse :: "row list \<Rightarrow> warehouse" where
  "orders_warehouse columns n sql params =
     (if n = 0
      then db_returning [[(lit ''table_schema'', lit ''public''), (lit ''table_name'', lit ''orders'')]]
      else db_returning columns)"

definition id_column :: row where
  "id_column =
     [(lit ''column_name'', lit ''id''), (lit ''data_type'', lit ''integer''),
      (lit ''is_nullable'', lit ''NO'')]"

definition total_column :: row where
  "total_column =
     [(lit ''column_name'', lit ''total''), (lit ''data_type'', lit ''numeric''),
      (lit ''is_nullable'', lit ''YES'')]"

definition id_info :: column_info where
  "id_info = \<lparr>col_name = lit ''id'', col_type = lit ''integer'', col_nullable = False\<rparr>"

definition total_info :: column_info where
  "total_info = \<lparr>col_name = lit ''total'', col_type = lit ''numeric'', col_nullable = True\<rparr>"

definition orders_snapshot :: "column_info list \<Rightarrow> schema_info" where
  "orders_snapshot cols = [\<lparr>tbl_name = lit ''public.orders'', tbl_columns = cols\<rparr>]"

definition fetch_trace :: "event list" where
  "fetch_trace =
     [SchemaFetch (Some (lit ''public'')),
      GetConn 7, OpenCursor 7, SetTimeout 7 120000,
      Execute 7 tables_sql_target (Some [lit ''public'']), FetchAll 7, CloseCursor 7, PutConn 7,
      GetConn 7, OpenCursor 7, SetTimeout 7 120000,
      Execute 7 columns_sql (Some [lit ''public'', lit ''orders'']), FetchAll 7, CloseCursor 7,
      PutConn 7]"

definition fresh_generator :: generator where
  "fresh_generator = \<lparr>schema_cache = None, schema_cache_time = None\<rparr>"

definition cached_generator :: "schema_info \<Rightarrow> real \<Rightarrow> generator" where
  "cached_generator s t = \<lparr>schema_cache = Some s, schema_cache_time = Some t\<rparr>"

text \<open>A model reply that wraps the SQL in a fence and comments it.\<close>

definition example_bedrock :: bedrock_reply where
  "example_bedrock =
     \<lparr>on_generate = Inr (lit ''```sql\<newline>SELECT id FROM orders -- all of them\<newline>```''),
      on_format = Inr (lit ''There are three orders.'')\<rparr>"


section \<open>Properties of the validator\<close>

subsection \<open>Literals, upper case and ASCII text\<close>

lemma lit_eq_iff [simp]: "lit a = lit b \<longleftrightarrow> a = b"
  by (simp add: lit_def inj_map_eq_map inj_on_def)

lemma lit_Nil [simp]: "lit [] = []"
  by (simp add: lit_def)

lemma lit_eq_Nil [simp]: "lit a = [] \<longleftrightarrow> a = []"
  by (simp add: lit_def)

lemma length_lit [simp]: "length (lit a) = length a"
  by (simp add: lit_def)

lemma lit_append: "lit (a @ b) = lit a @ lit b"
  by (simp add: lit_def)

lemma ascii_only_append [simp]: "ascii_only (a @ b) \<longleftrightarrow> ascii_only a \<and> ascii_only b"
  by (simp add: ascii_only_def)

lemma ascii_only_nth: "ascii_only s \<Longrightarrow> i < length s \<Longrightarrow> 0 \<le> s ! i \<and> s ! i < 128"
  by (simp add: ascii_only_def list_all_length)

lemma ascii_only_mem: "ascii_only s \<Longrightarrow> c \<in> set s \<Longrightarrow> 0 \<le> c \<and> c < 128"
  by (simp add: ascii_only_def list_all_iff)

lemma ascii_only_dropWhile: "ascii_only s \<Longrightarrow> ascii_only (dropWhile P s)"
  unfolding ascii_only_def list_all_iff using set_dropWhileD by fast

lemma ascii_only_rev [simp]: "ascii_only (rev s) = ascii_only s"
  by (simp add: ascii_only_def list_all_iff)

lemma ascii_only_strip: "ascii_only s \<Longrightarrow> ascii_only (strip s)"
  by (simp add: strip_def lstrip_def rstrip_def ascii_only_dropWhile)

lemma ascii_tablesD:
  "ascii_tables U \<Longrightarrow> 0 \<le> c \<Longrightarrow> c < 128 \<Longrightarrow>
     uc_upper U c = [upper_ascii c] \<and> uc_word U c = word_ascii c"
  by (simp add: ascii_tables_def list_all_iff)

lemma word_upper_ascii [simp]: "word_ascii (upper_ascii c) = word_ascii c"
  unfolding word_ascii_def upper_ascii_def by auto

lemma isspace_upper_ascii [simp]: "isspace (upper_ascii c) = isspace c"
  unfolding isspace_def upper_ascii_def by auto

lemma upper_ascii_range: "0 \<le> c \<Longrightarrow> c < 128 \<Longrightarrow> 0 \<le> upper_ascii c \<and> upper_ascii c < 128"
  unfolding upper_ascii_def by auto

lemma uc_word_upper_ascii:
  "ascii_tables U \<Longrightarrow> 0 \<le> c \<Longrightarrow> c < 128 \<Longrightarrow> uc_word U (upper_ascii c) = uc_word U c"
  using ascii_tablesD [of U c] ascii_tablesD [of U "upper_ascii c"] upper_ascii_range [of c]
  by simp

lemma upper_Nil [simp]: "upper U [] = []"
  by (simp add: upper_def)

lemma upper_append [simp]: "upper U (a @ b) = upper U a @ upper U b"
  by (simp add: upper_def)

lemma upper_ascii_only:
  "ascii_tables U \<Longrightarrow> ascii_only s \<Longrightarrow> upper U s = map upper_ascii s"
proof (induction s)
  case Nil
  then show ?case by simp
next
  case (Cons c s)
  then have "uc_upper U c = [upper_ascii c]" and "ascii_only s"
    using ascii_tablesD [of U c] by (simp_all add: ascii_only_def)
  with Cons show ?case by (simp add: upper_def)
qed

lemma ascii_only_upper:
  "ascii_only s \<Longrightarrow> ascii_only (map upper_ascii s)"
  unfolding ascii_only_def list_all_iff using upper_ascii_range by auto

subsection \<open>The regular expression and the standalone word\<close>

lemma re_search_word_iff:
  "re_search_word U keyword s \<longleftrightarrow> (\<exists>i\<le>length s. match_at U keyword s i)"
  unfolding re_search_word_def list_ex_iff
  by (auto simp del: upt_Suc simp: less_Suc_eq_le)

lemma keyword_shapeD:
  assumes "keyword_shape U k"
  obtains m where "length k = Suc m" "uc_word U (k ! 0)" "uc_word U (k ! m)"
proof -
  from assms have kne: "k \<noteq> []" and hk: "uc_word U (hd k)" and lk: "uc_word U (last k)"
    by (simp_all add: keyword_shape_def)
  from kne obtain m where m: "length k = Suc m" by (cases k) auto
  have "hd k = k ! 0" using kne by (simp add: hd_conv_nth)
  moreover have "last k = k ! m" using kne m by (simp add: last_conv_nth)
  ultimately show ?thesis using that m hk lk by simp
qed

lemma occurs_imp_search:
  assumes k: "keyword_shape U k" and st: "occurs_as_word U k u"
  shows "re_search_word U k u"
proof -
  from st obtain pre post where u: "u = pre @ k @ post"
    and b1: "pre = [] \<or> \<not> uc_word U (last pre)"
    and b2: "post = [] \<or> \<not> uc_word U (hd post)"
    unfolding occurs_as_word_def by blast
  from k obtain m where km: "length k = Suc m" and k0: "uc_word U (k ! 0)"
    and kl: "uc_word U (k ! m)" by (rule keyword_shapeD)
  let ?i = "length pre"
  have len: "length u = ?i + Suc m + length post"
    using km by (simp add: u)
  have at_i: "u ! ?i = k ! 0"
    using km by (simp add: u nth_append)
  have before_i: "pre \<noteq> [] \<Longrightarrow> u ! (?i - 1) = last pre"
    by (simp add: u nth_append last_conv_nth)
  have at_end: "u ! (?i + m) = k ! m"
    using km by (simp add: u nth_append)
  have after: "post \<noteq> [] \<Longrightarrow> u ! (?i + Suc m) = hd post"
    using km by (simp add: u nth_append hd_conv_nth)
  have wb1: "word_boundary U u ?i"
  proof -
    have "\<not> (0 < ?i \<and> ?i \<le> length u \<and> uc_word U (u ! (?i - 1)))"
      using b1 before_i by auto
    moreover have "?i < length u \<and> uc_word U (u ! ?i)"
      using len at_i k0 by simp
    ultimately show ?thesis unfolding word_boundary_def by blast
  qed
  have wb2: "word_boundary U u (?i + Suc m)"
  proof -
    have "0 < ?i + Suc m \<and> ?i + Suc m \<le> length u \<and> uc_word U (u ! (?i + Suc m - 1))"
      using len at_end kl by simp
    moreover have "\<not> (?i + Suc m < length u \<and> uc_word U (u ! (?i + Suc m)))"
      using b2 after len by auto
    ultimately show ?thesis unfolding word_boundary_def by blast
  qed
  have tk: "take (length k) (drop ?i u) = k" by (simp add: u)
  have "match_at U k u ?i"
    unfolding match_at_def using wb1 wb2 tk len km by simp
  moreover have "?i \<le> length u" using len by simp
  ultimately show ?thesis unfolding re_search_word_iff by blast
qed

lemma search_imp_occurs:
  assumes k: "keyword_shape U k" and se: "re_search_word U k u"
  shows "occurs_as_word U k u"
proof -
  from k obtain m where km: "length k = Suc m" and k0: "uc_word U (k ! 0)"
    and kl: "uc_word U (k ! m)" by (rule keyword_shapeD)
  from se obtain i where m: "match_at U k u i"
    unfolding re_search_word_iff by blast
  from m have wb1: "word_boundary U u i" and le: "i + Suc m \<le> length u"
    and tk: "take (Suc m) (drop i u) = k"
    and wb2: "word_boundary U u (i + Suc m)"
    by (simp_all add: match_at_def km)
  let ?pre = "take i u" and ?post = "drop (i + Suc m) u"
  have "u = ?pre @ take (Suc m) (drop i u) @ ?post"
    by (metis append_take_drop_id drop_drop add.commute)
  then have split: "u = ?pre @ k @ ?post" using tk by simp
  have nth_k: "j \<le> m \<Longrightarrow> u ! (i + j) = k ! j" for j
  proof -
    assume j: "j \<le> m"
    have "k ! j = take (Suc m) (drop i u) ! j" using tk by simp
    also have "\<dots> = u ! (i + j)" using j le by simp
    finally show ?thesis by simp
  qed
  have w_i: "uc_word U (u ! i)" using nth_k[of 0] k0 by simp
  have w_e: "uc_word U (u ! (i + m))" using nth_k[of m] kl by simp
  have b1: "?pre = [] \<or> \<not> uc_word U (last ?pre)"
  proof (cases "i = 0")
    case True then show ?thesis by simp
  next
    case False
    then have i: "0 < i" "i \<le> length u" "i < length u" using le by simp_all
    from wb1 w_i i have "\<not> uc_word U (u ! (i - 1))"
      unfolding word_boundary_def by auto
    moreover have "last ?pre = u ! (i - 1)"
    proof -
      from i obtain j where j: "i = Suc j" by (cases i) auto
      then have "take i u = take j u @ [u ! j]"
        using i by (simp add: take_Suc_conv_app_nth)
      then show ?thesis using j by simp
    qed
    ultimately show ?thesis by simp
  qed
  have b2: "?post = [] \<or> \<not> uc_word U (hd ?post)"
  proof (cases "i + Suc m < length u")
    case False then show ?thesis by simp
  next
    case True
    from wb2 w_e le True have "\<not> uc_word U (u ! (i + Suc m))"
      unfolding word_boundary_def by auto
    moreover have "hd ?post = u ! (i + Suc m)"
      using True by (simp add: hd_drop_conv_nth)
    ultimately show ?thesis by simp
  qed
  show ?thesis unfolding occurs_as_word_def
    using split b1 b2 by blast
qed

lemma search_iff_occurs:
  "keyword_shape U k \<Longrightarrow> re_search_word U k u \<longleftrightarrow> occurs_as_word U k u"
  using occurs_imp_search search_imp_occurs by blast

text \<open>
  On ASCII text the upper case keeps the length and the word characters, so a verb
  stands in the upper-cased text exactly when it stands, in some case, in the text.
\<close>

lemma occurs_iff_standalone:
  assumes U: "ascii_tables U" and a: "ascii_only sql"
  shows "occurs_as_word U k (upper U sql) \<longleftrightarrow> standalone_word U k sql"
proof
  assume "standalone_word U k sql"
  then obtain pre w post where sql: "sql = pre @ w @ post" and w: "upper U w = k"
    and b1: "pre = [] \<or> \<not> uc_word U (last pre)"
    and b2: "post = [] \<or> \<not> uc_word U (hd post)"
    unfolding standalone_word_def by blast
  from a sql have ap: "ascii_only pre" and apo: "ascii_only post" by simp_all
  have up: "upper U pre = map upper_ascii pre" and upo: "upper U post = map upper_ascii post"
    using upper_ascii_only [OF U] ap apo by simp_all
  have "upper U sql = upper U pre @ k @ upper U post" using sql w by simp
  moreover have "upper U pre = [] \<or> \<not> uc_word U (last (upper U pre))"
  proof (cases "pre = []")
    case True then show ?thesis by simp
  next
    case False
    then have "last pre \<in> set pre" by simp
    then have "uc_word U (upper_ascii (last pre)) = uc_word U (last pre)"
      using uc_word_upper_ascii [OF U] ascii_only_mem [OF ap] by blast
    then show ?thesis using False b1 by (simp add: up last_map)
  qed
  moreover have "upper U post = [] \<or> \<not> uc_word U (hd (upper U post))"
  proof (cases "post = []")
    case True then show ?thesis by simp
  next
    case False
    then have "hd post \<in> set post" by simp
    then have "uc_word U (upper_ascii (hd post)) = uc_word U (hd post)"
      using uc_word_upper_ascii [OF U] ascii_only_mem [OF apo] by blast
    then show ?thesis using False b2 by (simp add: upo hd_map)
  qed
  ultimately show "occurs_as_word U k (upper U sql)"
    unfolding occurs_as_word_def by blast
next
  assume "occurs_as_word U k (upper U sql)"
  then obtain pre' post' where u: "upper U sql = pre' @ k @ post'"
    and b1: "pre' = [] \<or> \<not> uc_word U (last pre')"
    and b2: "post' = [] \<or> \<not> uc_word U (hd post')"
    unfolding occurs_as_word_def by blast
  have "map upper_ascii sql = pre' @ k @ post'"
    using u upper_ascii_only [OF U a] by simp
  then obtain pre rest where s1: "sql = pre @ rest" and p: "pre' = map upper_ascii pre"
    and r: "k @ post' = map upper_ascii rest"
    by (auto simp: map_eq_append_conv)
  from r obtain w post where s2: "rest = w @ post" and w: "k = map upper_ascii w"
    and po: "post' = map upper_ascii post"
    by (auto simp: append_eq_map_conv)
  from a s1 s2 have ap: "ascii_only pre" and aw: "ascii_only w" and apo: "ascii_only post"
    by simp_all
  have "upper U w = k" using upper_ascii_only [OF U aw] w by simp
  moreover have "pre = [] \<or> \<not> uc_word U (last pre)"
  proof (cases "pre = []")
    case True then show ?thesis by simp
  next
    case False
    then have "last pre \<in> set pre" by simp
    then have "uc_word U (upper_ascii (last pre)) = uc_word U (last pre)"
      using uc_word_upper_ascii [OF U] ascii_only_mem [OF ap] by blast
    then show ?thesis using False b1 p by (simp add: last_map)
  qed
  moreover have "post = [] \<or> \<not> uc_word U (hd post)"
  proof (cases "post = []")
    case True then show ?thesis by simp
  next
    case False
    then have "hd post \<in> set post" by simp
    then have "uc_word U (upper_ascii (hd post)) = uc_word U (hd post)"
      using uc_word_upper_ascii [OF U] ascii_only_mem [OF apo] by blast
    then show ?thesis using False b2 po by (simp add: hd_map)
  qed
  ultimately show "standalone_word U k sql"
    unfolding standalone_word_def using s1 s2 by blast
qed

lemma keyword_rule_ascii:
  "ascii_tables U \<Longrightarrow> ascii_only sql \<Longrightarrow>
     keyword_rule_rejects U sql \<longleftrightarrow> has_blocked_keyword U sql"
  unfolding keyword_rule_rejects_def has_blocked_keyword_def
  using occurs_iff_standalone by blast

subsection \<open>The scan for blocked verbs\<close>

lemma dangerous_keywords_shape:
  assumes "ascii_tables U" and "k \<in> set dangerous_keywords"
  shows "keyword_shape U k"
proof -
  have w: "uc_word U c = word_ascii c" if "0 \<le> c" "c < 128" for c
    using ascii_tablesD [OF assms(1)] that by simp
  have "uc_word U 65" "uc_word U 67" "uc_word U 68" "uc_word U 69" "uc_word U 71"
    "uc_word U 73" "uc_word U 80" "uc_word U 82" "uc_word U 84" "uc_word U 85"
    by (simp_all add: w word_ascii_def)
  with assms(2) show ?thesis
    by (auto simp: dangerous_keywords_def keyword_shape_def lit_def)
qed

lemma find_first:
  "find P xs = Some k \<Longrightarrow> k \<in> set xs \<and> P k \<and> (\<forall>x\<in>set (takeWhile (\<lambda>x. x \<noteq> k) xs). \<not> P x)"
  by (induction xs) (auto split: if_splits)

lemma find_None_iff_none: "find P xs = None \<longleftrightarrow> (\<forall>x\<in>set xs. \<not> P x)"
  by (induction xs) auto

lemma keyword_scan_None:
  assumes "ascii_tables U"
  shows "find (\<lambda>keyword. re_search_word U keyword (upper U sql)) dangerous_keywords = None
     \<longleftrightarrow> \<not> keyword_rule_rejects U sql"
  unfolding find_None_iff_none keyword_rule_rejects_def
  using search_iff_occurs dangerous_keywords_shape [OF assms] by blast

lemma keyword_scan_Some:
  assumes U: "ascii_tables U"
    and f: "find (\<lambda>keyword. re_search_word U keyword (upper U sql)) dangerous_keywords = Some k"
  shows "k \<in> set dangerous_keywords \<and> occurs_as_word U k (upper U sql) \<and>
    (\<forall>k'\<in>set (takeWhile (\<lambda>x. x \<noteq> k) dangerous_keywords). \<not> occurs_as_word U k' (upper U sql))"
proof -
  from find_first [OF f]
  have k: "k \<in> set dangerous_keywords" and s: "re_search_word U k (upper U sql)"
    and b: "\<forall>x\<in>set (takeWhile (\<lambda>x. x \<noteq> k) dangerous_keywords).
              \<not> re_search_word U x (upper U sql)"
    by blast+
  have "occurs_as_word U k (upper U sql)"
    using k s dangerous_keywords_shape [OF U] search_iff_occurs by blast
  moreover have "\<not> occurs_as_word U k' (upper U sql)"
    if "k' \<in> set (takeWhile (\<lambda>x. x \<noteq> k) dangerous_keywords)" for k'
  proof -
    from that have "k' \<in> set dangerous_keywords" by (rule set_takeWhileD [THEN conjunct1])
    then have "keyword_shape U k'" by (rule dangerous_keywords_shape [OF U])
    with b that show ?thesis using search_iff_occurs by blast
  qed
  ultimately show ?thesis using k by blast
qed

subsection \<open>The rules in their order\<close>

lemma validate_no_keyword:
  assumes "ascii_tables U" and "\<not> keyword_rule_rejects U sql"
  shows "validate_sql_safety U sql =
     (if select_rule_rejects U sql
      then (False, lit ''Query must start with SELECT'')
      else if 1 < count_char sql 59
      then (False, lit ''Multiple SQL statements not allowed'')
      else if count_char sql 59 = 1 \<and> \<not> endswith (rstrip sql) (lit '';'')
      then (False, lit ''Multiple SQL statements not allowed'')
      else (True, []))"
proof -
  have "find (\<lambda>keyword. re_search_word U keyword (upper U sql)) dangerous_keywords = None"
    using assms keyword_scan_None by blast
  then show ?thesis
    unfolding validate_sql_safety_def select_rule_rejects_def Let_def by simp
qed

lemma validate_keyword:
  assumes U: "ascii_tables U" and r: "keyword_rule_rejects U sql"
  shows "\<exists>k\<in>set dangerous_keywords. occurs_as_word U k (upper U sql) \<and>
     validate_sql_safety U sql = (False, lit ''Dangerous SQL keyword detected: '' @ k) \<and>
     (\<forall>k'\<in>set (takeWhile (\<lambda>x. x \<noteq> k) dangerous_keywords).
         \<not> occurs_as_word U k' (upper U sql))"
proof -
  from r obtain k where
    f: "find (\<lambda>keyword. re_search_word U keyword (upper U sql)) dangerous_keywords = Some k"
    using keyword_scan_None [OF U, of sql]
    by (cases "find (\<lambda>keyword. re_search_word U keyword (upper U sql)) dangerous_keywords") auto
  have "validate_sql_safety U sql = (False, lit ''Dangerous SQL keyword detected: '' @ k)"
    unfolding validate_sql_safety_def Let_def f by simp
  with keyword_scan_Some [OF U f] show ?thesis by blast
qed

lemma isspace_comp_upper: "isspace \<circ> upper_ascii = isspace"
  by (rule ext) simp

lemma strip_upper:
  assumes "ascii_tables U" and "ascii_only s"
  shows "strip (upper U s) = upper U (strip s)"
proof -
  have "strip (map upper_ascii s) = map upper_ascii (strip s)"
    by (simp add: strip_def lstrip_def rstrip_def dropWhile_map isspace_comp_upper rev_map)
  then show ?thesis
    using upper_ascii_only [OF assms] upper_ascii_only [OF assms(1) ascii_only_strip [OF assms(2)]]
    by simp
qed

subsection \<open>The first rule as a scan in one pass\<close>

lemma keyword_here_iff:
  "keyword_here U k s \<longleftrightarrow> (\<exists>post. s = k @ post \<and> (post = [] \<or> \<not> uc_word U (hd post)))"
proof (induction U k s rule: keyword_here.induct)
  case (1 U rest)
  then show ?case by (cases rest) auto
next
  case (2 U a k)
  then show ?case by simp
next
  case (3 U a k c cs)
  then show ?case by auto
qed

lemma found_Nil: "[] \<notin> set ks \<Longrightarrow> \<not> found U pw ks []"
  by (auto simp: found_def)

lemma found_Cons:
  assumes "[] \<notin> set ks"
  shows "found U pw ks (c # cs) \<longleftrightarrow>
     (\<not> pw \<and> (\<exists>k\<in>set ks. keyword_here U k (c # cs))) \<or> found U (uc_word U c) ks cs"
proof
  assume "found U pw ks (c # cs)"
  then obtain k pre post where k: "k \<in> set ks" and u: "c # cs = pre @ k @ post"
    and b1: "if pre = [] then \<not> pw else \<not> uc_word U (last pre)"
    and b2: "post = [] \<or> \<not> uc_word U (hd post)"
    unfolding found_def by blast
  show "(\<not> pw \<and> (\<exists>k\<in>set ks. keyword_here U k (c # cs))) \<or> found U (uc_word U c) ks cs"
  proof (cases pre)
    case Nil
    then have "keyword_here U k (c # cs)" using u b2 keyword_here_iff by auto
    with Nil b1 k show ?thesis by auto
  next
    case (Cons a pre')
    then have a: "a = c" and cs: "cs = pre' @ k @ post" using u by simp_all
    have "if pre' = [] then \<not> uc_word U c else \<not> uc_word U (last pre')"
      using b1 Cons a by (auto split: if_splits)
    then have "found U (uc_word U c) ks cs"
      unfolding found_def using k cs b2 by blast
    then show ?thesis by simp
  qed
next
  assume "(\<not> pw \<and> (\<exists>k\<in>set ks. keyword_here U k (c # cs))) \<or> found U (uc_word U c) ks cs"
  then show "found U pw ks (c # cs)"
  proof
    assume h: "\<not> pw \<and> (\<exists>k\<in>set ks. keyword_here U k (c # cs))"
    then obtain k post where "k \<in> set ks" "c # cs = k @ post"
      "post = [] \<or> \<not> uc_word U (hd post)"
      using keyword_here_iff by blast
    then have "k \<in> set ks \<and> c # cs = [] @ k @ post \<and>
        (if ([]::str) = [] then \<not> pw else \<not> uc_word U (last [])) \<and>
        (post = [] \<or> \<not> uc_word U (hd post))" using h by simp
    then show ?thesis unfolding found_def by blast
  next
    assume "found U (uc_word U c) ks cs"
    then obtain k pre post where k: "k \<in> set ks" and u: "cs = pre @ k @ post"
      and b1: "if pre = [] then \<not> uc_word U c else \<not> uc_word U (last pre)"
      and b2: "post = [] \<or> \<not> uc_word U (hd post)"
      unfolding found_def by blast
    have "c # cs = (c # pre) @ k @ post" using u by simp
    moreover have "if c # pre = [] then \<not> pw else \<not> uc_word U (last (c # pre))"
      using b1 by (auto split: if_splits)
    ultimately show ?thesis unfolding found_def using k b2 by blast
  qed
qed

lemma scan_keywords_iff:
  "[] \<notin> set ks \<Longrightarrow> scan_keywords U pw ks u \<longleftrightarrow> found U pw ks u"
proof (induction u arbitrary: pw)
  case Nil
  then show ?case by (simp add: found_Nil)
next
  case (Cons c cs)
  then show ?case by (auto simp: found_Cons list_ex_iff)
qed

lemma keyword_rule_by_scan:
  "keyword_rule_rejects U sql \<longleftrightarrow> scan_keywords U False dangerous_keywords (upper U sql)"
proof -
  have "[] \<notin> set dangerous_keywords" by (simp add: dangerous_keywords_def lit_def)
  moreover have "keyword_rule_rejects U sql \<longleftrightarrow> found U False dangerous_keywords (upper U sql)"
  proof -
    have e: "(if pre = [] then \<not> False else \<not> q) = (pre = [] \<or> \<not> q)" for pre :: str and q
      by simp
    show ?thesis
      unfolding keyword_rule_rejects_def found_def occurs_as_word_def e ..
  qed
  ultimately show ?thesis by (simp add: scan_keywords_iff)
qed

subsection \<open>Two tables that agree on ASCII\<close>

lemma word_boundary_ascii:
  assumes "ascii_tables U" and "ascii_tables V" and "ascii_only s"
  shows "word_boundary U s i = word_boundary V s i"
proof -
  have "uc_word U (s ! j) = uc_word V (s ! j)" if "j < length s" for j
    using ascii_only_nth [OF assms(3) that] ascii_tablesD [OF assms(1)] ascii_tablesD [OF assms(2)]
    by simp
  then show ?thesis unfolding word_boundary_def by (cases i) auto
qed

lemma re_search_word_ascii:
  assumes "ascii_tables U" and "ascii_tables V" and "ascii_only s"
  shows "re_search_word U k s = re_search_word V k s"
  unfolding re_search_word_def match_at_def
  by (simp add: word_boundary_ascii [OF assms])

lemma upper_ascii_tables:
  assumes "ascii_tables U" and "ascii_tables V" and "ascii_only s"
  shows "upper U s = upper V s"
  using upper_ascii_only [OF assms(1,3)] upper_ascii_only [OF assms(2,3)] by simp

lemma validate_ascii:
  assumes "ascii_tables U" and "ascii_tables V" and "ascii_only sql"
  shows "validate_sql_safety U sql = validate_sql_safety V sql"
proof -
  have u: "upper U sql = upper V sql" by (rule upper_ascii_tables [OF assms])
  have "ascii_only (upper V sql)"
    using upper_ascii_only [OF assms(2,3)] ascii_only_upper [OF assms(3)] by simp
  then have "(\<lambda>keyword. re_search_word U keyword (upper V sql))
      = (\<lambda>keyword. re_search_word V keyword (upper V sql))"
    using re_search_word_ascii [OF assms(1,2)] by blast
  then show ?thesis unfolding validate_sql_safety_def u by simp
qed

lemma skips_validation_ascii:
  assumes "ascii_tables U" and "ascii_tables V" and "ascii_only sql"
  shows "skips_validation U sql = skips_validation V sql"
  unfolding skips_validation_def
  using upper_ascii_tables [OF assms(1,2) ascii_only_strip [OF assms(3)]] by simp

lemma ascii_tables_example: "ascii_tables example_unicode"
  by code_simp


subsection \<open>Blocked verbs\<close>

text \<open>
  C1, as stated: every text that contains a blocked verb as a standalone word, in any
  case, is rejected. The search runs on the upper-cased text, and the upper case of a
  character that is not a word character can be a word character. In the text
  \<open>SELECT drop\<close>, U+0345, \<open> FROM t\<close> the word \<open>drop\<close> stands between a space and
  U+0345, which is not a word character; the upper case of U+0345 is the letter U+0399,
  so in the upper-cased text no word boundary follows \<open>DROP\<close>, and the text is accepted.
\<close>

theorem blocked_keyword_counterexample:
  "lit ''DROP'' \<in> set dangerous_keywords \<and>
   standalone_word example_unicode (lit ''DROP'') (lit ''SELECT drop'' @ [837] @ lit '' FROM t'') \<and>
   validate_sql_safety example_unicode (lit ''SELECT drop'' @ [837] @ lit '' FROM t'') = (True, [])"
proof -
  let ?s = "lit ''SELECT drop'' @ [837] @ lit '' FROM t''"
  have k: "lit ''DROP'' \<in> set dangerous_keywords" by (simp add: dangerous_keywords_def)
  have "?s = lit ''SELECT '' @ lit ''drop'' @ ([837] @ lit '' FROM t'') \<and>
      upper example_unicode (lit ''drop'') = lit ''DROP'' \<and>
      \<not> uc_word example_unicode (last (lit ''SELECT '')) \<and>
      \<not> uc_word example_unicode (hd ([837] @ lit '' FROM t''))"
    by code_simp
  then have s: "standalone_word example_unicode (lit ''DROP'') ?s"
    unfolding standalone_word_def by blast
  have v: "validate_sql_safety example_unicode ?s = (True, [])" by code_simp
  from k s v show ?thesis by blast
qed

text \<open>
  C1, amended: for every ASCII text. If an ASCII text contains one of the blocked verbs
  as a standalone word, in any case, then \<open>validate_sql_safety\<close> rejects it, and the
  reason names a blocked verb that stands in the text as a standalone word: the first
  such verb in the order of the list, since the loop returns at the first keyword it
  finds. This holds for every table of upper cases and word characters that is the
  Unicode one on ASCII.
\<close>

theorem blocked_keyword_rejected:
  assumes "ascii_tables U" and "ascii_only sql"
    and "kw \<in> set dangerous_keywords" and "standalone_word U kw sql"
  shows "fst (validate_sql_safety U sql) = False \<and>
    (\<exists>k\<in>set dangerous_keywords.
        standalone_word U k sql \<and>
        snd (validate_sql_safety U sql) = lit ''Dangerous SQL keyword detected: '' @ k \<and>
        (\<forall>k'\<in>set (takeWhile (\<lambda>x. x \<noteq> k) dangerous_keywords). \<not> standalone_word U k' sql))"
proof -
  have "keyword_rule_rejects U sql"
    using assms unfolding keyword_rule_ascii [OF assms(1,2)] has_blocked_keyword_def by blast
  from validate_keyword [OF assms(1) this] obtain k where
    k: "k \<in> set dangerous_keywords" and o: "occurs_as_word U k (upper U sql)"
    and v: "validate_sql_safety U sql = (False, lit ''Dangerous SQL keyword detected: '' @ k)"
    and b: "\<forall>k'\<in>set (takeWhile (\<lambda>x. x \<noteq> k) dangerous_keywords).
              \<not> occurs_as_word U k' (upper U sql)"
    by blast
  have "standalone_word U k sql"
    using o occurs_iff_standalone [OF assms(1,2)] by blast
  moreover have "\<forall>k'\<in>set (takeWhile (\<lambda>x. x \<noteq> k) dangerous_keywords). \<not> standalone_word U k' sql"
    using b occurs_iff_standalone [OF assms(1,2)] by blast
  ultimately show ?thesis using k v by auto
qed

theorem blocked_keyword_rejected_witness:
  "ascii_tables example_unicode \<and>
   ascii_only (lit ''select id from t; Drop table t'') \<and>
   lit ''DROP'' \<in> set dangerous_keywords \<and>
   standalone_word example_unicode (lit ''DROP'') (lit ''select id from t; Drop table t'') \<and>
   fst (validate_sql_safety example_unicode (lit ''select id from t; Drop table t'')) = False \<and>
   snd (validate_sql_safety example_unicode (lit ''select id from t; Drop table t'')) =
     lit ''Dangerous SQL keyword detected: DROP''"
proof -
  let ?s = "lit ''select id from t; Drop table t''"
  have h1: "ascii_only ?s" by code_simp
  have h2: "lit ''DROP'' \<in> set dangerous_keywords" by (simp add: dangerous_keywords_def)
  have "?s = lit ''select id from t; '' @ lit ''Drop'' @ lit '' table t'' \<and>
      upper example_unicode (lit ''Drop'') = lit ''DROP'' \<and>
      \<not> uc_word example_unicode (last (lit ''select id from t; '')) \<and>
      \<not> uc_word example_unicode (hd (lit '' table t''))"
    by code_simp
  then have h3: "standalone_word example_unicode (lit ''DROP'') ?s"
    unfolding standalone_word_def by blast
  have r: "snd (validate_sql_safety example_unicode ?s) = lit ''Dangerous SQL keyword detected: DROP''"
    by code_simp
  from blocked_keyword_rejected [OF ascii_tables_example h1 h2 h3]
  have "fst (validate_sql_safety example_unicode ?s) = False"
    by blast
  with ascii_tables_example h1 h2 h3 r show ?thesis by blast
qed

subsection \<open>The leading \<open>SELECT\<close>\<close>

text \<open>
  C4, as stated: a text that does not start with \<open>SELECT\<close> is rejected with the reason
  \<open>Query must start with SELECT\<close> whatever keywords it contains. The scan for blocked
  verbs comes first in \<open>validate_sql_safety\<close>, so \<open>DROP TABLE users\<close> is rejected
  with the reason that names \<open>DROP\<close>.
\<close>

theorem not_select_counterexample:
  "ascii_only (lit ''DROP TABLE users'') \<and>
   \<not> startswith (upper example_unicode (strip (lit ''DROP TABLE users''))) (lit ''SELECT'') \<and>
   validate_sql_safety example_unicode (lit ''DROP TABLE users'') =
     (False, lit ''Dangerous SQL keyword detected: DROP'') \<and>
   snd (validate_sql_safety example_unicode (lit ''DROP TABLE users'')) \<noteq>
     lit ''Query must start with SELECT''"
  by code_simp

text \<open>
  C4, amended: for every ASCII text. An ASCII text that, once trimmed and put in upper
  case, does not start with \<open>SELECT\<close> is always rejected. The reason is
  \<open>Query must start with SELECT\<close> when no blocked verb stands in the text as a
  standalone word; when one does, the reason names a blocked verb of the text.
\<close>

theorem not_select_rejected:
  assumes "ascii_tables U" and "ascii_only sql"
    and "\<not> startswith (upper U (strip sql)) (lit ''SELECT'')"
  shows "fst (validate_sql_safety U sql) = False \<and>
    (\<not> has_blocked_keyword U sql \<longrightarrow>
       snd (validate_sql_safety U sql) = lit ''Query must start with SELECT'') \<and>
    (has_blocked_keyword U sql \<longrightarrow>
       (\<exists>k\<in>set dangerous_keywords. standalone_word U k sql \<and>
          snd (validate_sql_safety U sql) = lit ''Dangerous SQL keyword detected: '' @ k))"
proof (cases "has_blocked_keyword U sql")
  case True
  then have "keyword_rule_rejects U sql" using keyword_rule_ascii [OF assms(1,2)] by simp
  from validate_keyword [OF assms(1) this] show ?thesis
    using True occurs_iff_standalone [OF assms(1,2)] by auto
next
  case False
  then have n: "\<not> keyword_rule_rejects U sql" using keyword_rule_ascii [OF assms(1,2)] by simp
  have "select_rule_rejects U sql"
    using assms(3) strip_upper [OF assms(1,2)] by (simp add: select_rule_rejects_def)
  with validate_no_keyword [OF assms(1) n] show ?thesis using False by simp
qed

theorem not_select_rejected_witness:
  "ascii_tables example_unicode \<and>
   ascii_only (lit ''  show tables'') \<and>
   \<not> startswith (upper example_unicode (strip (lit ''  show tables''))) (lit ''SELECT'') \<and>
   \<not> has_blocked_keyword example_unicode (lit ''  show tables'') \<and>
   fst (validate_sql_safety example_unicode (lit ''  show tables'')) = False \<and>
   snd (validate_sql_safety example_unicode (lit ''  show tables'')) =
     lit ''Query must start with SELECT'' \<and>
   ascii_only (lit ''delete from t'') \<and>
   \<not> startswith (upper example_unicode (strip (lit ''delete from t''))) (lit ''SELECT'') \<and>
   has_blocked_keyword example_unicode (lit ''delete from t'') \<and>
   fst (validate_sql_safety example_unicode (lit ''delete from t'')) = False \<and>
   snd (validate_sql_safety example_unicode (lit ''delete from t'')) =
     lit ''Dangerous SQL keyword detected: DELETE''"
proof -
  let ?U = example_unicode
  let ?s = "lit ''  show tables''" and ?d = "lit ''delete from t''"
  note U = ascii_tables_example
  have h1: "ascii_only ?s" by code_simp
  have h2: "\<not> startswith (upper ?U (strip ?s)) (lit ''SELECT'')" by code_simp
  have "\<not> scan_keywords ?U False dangerous_keywords (upper ?U ?s)" by code_simp
  then have h3: "\<not> has_blocked_keyword ?U ?s"
    using keyword_rule_by_scan [of ?U ?s] keyword_rule_ascii [OF U h1] by simp
  have d1: "ascii_only ?d" by code_simp
  have d2: "\<not> startswith (upper ?U (strip ?d)) (lit ''SELECT'')" by code_simp
  have "?d = [] @ lit ''delete'' @ lit '' from t'' \<and> upper ?U (lit ''delete'') = lit ''DELETE'' \<and>
      \<not> uc_word ?U (hd (lit '' from t'')) \<and> lit ''DELETE'' \<in> set dangerous_keywords"
    by code_simp
  then have d3: "has_blocked_keyword ?U ?d"
    unfolding has_blocked_keyword_def standalone_word_def by blast
  have d4: "snd (validate_sql_safety ?U ?d) = lit ''Dangerous SQL keyword detected: DELETE''"
    by code_simp
  from not_select_rejected [OF U h1 h2] h3
  have "fst (validate_sql_safety ?U ?s) = False"
    and "snd (validate_sql_safety ?U ?s) = lit ''Query must start with SELECT''" by blast+
  moreover from not_select_rejected [OF U d1 d2] have "fst (validate_sql_safety ?U ?d) = False"
    by blast
  ultimately show ?thesis using U h1 h2 h3 d1 d2 d3 d4 by blast
qed

text \<open>
  Outside ASCII the reason of a rejection does not follow the standalone words of the
  text. The text \<open>drop\<close>, U+0345, \<open> table t\<close> contains the standalone word \<open>drop\<close>
  and is rejected for its start; the text \<open>SELECT inser\<close>, U+1E97, \<open> FROM t\<close>
  contains no blocked verb, and is rejected for \<open>INSERT\<close>, which the upper case of
  U+1E97 completes. A letter that follows the verb makes another word of it: the text
  \<open>SELECT drop\<close>, U+00E9 (233, the letter e with acute accent), \<open> FROM t\<close> is accepted.
\<close>

lemma beyond_ascii_examples:
  "standalone_word example_unicode (lit ''DROP'') (lit ''drop'' @ [837] @ lit '' table t'') \<and>
   validate_sql_safety example_unicode (lit ''drop'' @ [837] @ lit '' table t'') =
     (False, lit ''Query must start with SELECT'') \<and>
   upper example_unicode (lit ''SELECT inser'' @ [7831] @ lit '' FROM t'') =
     lit ''SELECT INSERT'' @ [776] @ lit '' FROM T'' \<and>
   validate_sql_safety example_unicode (lit ''SELECT inser'' @ [7831] @ lit '' FROM t'') =
     (False, lit ''Dangerous SQL keyword detected: INSERT'') \<and>
   validate_sql_safety example_unicode (lit ''SELECT drop'' @ [233] @ lit '' FROM t'') = (True, [])"
proof -
  let ?U = example_unicode
  have "lit ''drop'' @ [837] @ lit '' table t'' = [] @ lit ''drop'' @ ([837] @ lit '' table t'') \<and>
      upper ?U (lit ''drop'') = lit ''DROP'' \<and>
      \<not> uc_word ?U (hd ([837] @ lit '' table t''))"
    by code_simp
  then have "standalone_word ?U (lit ''DROP'') (lit ''drop'' @ [837] @ lit '' table t'')"
    unfolding standalone_word_def by blast
  moreover have "validate_sql_safety ?U (lit ''drop'' @ [837] @ lit '' table t'') =
     (False, lit ''Query must start with SELECT'')" by code_simp
  moreover have "upper ?U (lit ''SELECT inser'' @ [7831] @ lit '' FROM t'') =
     lit ''SELECT INSERT'' @ [776] @ lit '' FROM T''" by code_simp
  moreover have "validate_sql_safety ?U (lit ''SELECT inser'' @ [7831] @ lit '' FROM t'') =
     (False, lit ''Dangerous SQL keyword detected: INSERT'')" by code_simp
  moreover have "validate_sql_safety ?U (lit ''SELECT drop'' @ [233] @ lit '' FROM t'') = (True, [])"
    by code_simp
  ultimately show ?thesis by blast
qed

subsection \<open>Semicolons\<close>

text \<open>
  C5. The semicolon rule is the third rule of the policy, in which the first failing
  rule wins. A text with more than one semicolon, or with exactly one semicolon that is
  not its last character once trailing whitespace is trimmed, is rejected, and when
  neither of the two earlier rules rejects it the reason is
  \<open>Multiple SQL statements not allowed\<close>. A text that the two earlier rules do not
  reject and whose single semicolon ends it, whitespace apart, is accepted. This holds
  for every text, ASCII or not, and for every table of upper cases and word characters
  that is the Unicode one on ASCII.
\<close>

theorem semicolon_rule:
  assumes "ascii_tables U"
  shows
   "((1 < count_char sql 59 \<or>
      (count_char sql 59 = 1 \<and> \<not> endswith (rstrip sql) (lit '';''))) \<longrightarrow>
        fst (validate_sql_safety U sql) = False \<and>
        (\<not> keyword_rule_rejects U sql \<and> \<not> select_rule_rejects U sql \<longrightarrow>
           validate_sql_safety U sql = (False, lit ''Multiple SQL statements not allowed''))) \<and>
    (\<not> keyword_rule_rejects U sql \<and> \<not> select_rule_rejects U sql \<and>
       count_char sql 59 = 1 \<and> endswith (rstrip sql) (lit '';'') \<longrightarrow>
        validate_sql_safety U sql = (True, []))"
proof (cases "keyword_rule_rejects U sql")
  case True
  from validate_keyword [OF assms True] show ?thesis using True by auto
next
  case False
  show ?thesis unfolding validate_no_keyword [OF assms False] using False by auto
qed

theorem semicolon_rule_witness:
  "ascii_tables example_unicode \<and>
   1 < count_char (lit ''SELECT 1; SELECT 2;'') 59 \<and>
   \<not> keyword_rule_rejects example_unicode (lit ''SELECT 1; SELECT 2;'') \<and>
   \<not> select_rule_rejects example_unicode (lit ''SELECT 1; SELECT 2;'') \<and>
   validate_sql_safety example_unicode (lit ''SELECT 1; SELECT 2;'') =
     (False, lit ''Multiple SQL statements not allowed'') \<and>
   count_char (lit ''SELECT 1;SELECT 2'') 59 = 1 \<and>
   \<not> endswith (rstrip (lit ''SELECT 1;SELECT 2'')) (lit '';'') \<and>
   \<not> keyword_rule_rejects example_unicode (lit ''SELECT 1;SELECT 2'') \<and>
   \<not> select_rule_rejects example_unicode (lit ''SELECT 1;SELECT 2'') \<and>
   validate_sql_safety example_unicode (lit ''SELECT 1;SELECT 2'') =
     (False, lit ''Multiple SQL statements not allowed'') \<and>
   count_char (lit ''SELECT * FROM t; '') 59 = 1 \<and>
   endswith (rstrip (lit ''SELECT * FROM t; '')) (lit '';'') \<and>
   \<not> keyword_rule_rejects example_unicode (lit ''SELECT * FROM t; '') \<and>
   \<not> select_rule_rejects example_unicode (lit ''SELECT * FROM t; '') \<and>
   validate_sql_safety example_unicode (lit ''SELECT * FROM t; '') = (True, []) \<and>
   1 < count_char (lit ''SELECT 1; DROP TABLE t;'') 59 \<and>
   fst (validate_sql_safety example_unicode (lit ''SELECT 1; DROP TABLE t;'')) = False \<and>
   1 < count_char (lit ''SELECT drop'' @ [837] @ lit ''; SELECT 2;'') 59 \<and>
   \<not> keyword_rule_rejects example_unicode (lit ''SELECT drop'' @ [837] @ lit ''; SELECT 2;'') \<and>
   \<not> select_rule_rejects example_unicode (lit ''SELECT drop'' @ [837] @ lit ''; SELECT 2;'') \<and>
   validate_sql_safety example_unicode (lit ''SELECT drop'' @ [837] @ lit ''; SELECT 2;'') =
     (False, lit ''Multiple SQL statements not allowed'')"
proof -
  let ?U = example_unicode
  let ?a = "lit ''SELECT 1; SELECT 2;''" and ?b = "lit ''SELECT 1;SELECT 2''"
    and ?c = "lit ''SELECT * FROM t; ''" and ?d = "lit ''SELECT 1; DROP TABLE t;''"
    and ?e = "lit ''SELECT drop'' @ [837] @ lit ''; SELECT 2;''"
  note U = ascii_tables_example
  have a: "1 < count_char ?a 59" "\<not> select_rule_rejects ?U ?a" by code_simp+
  have ak: "\<not> keyword_rule_rejects ?U ?a" unfolding keyword_rule_by_scan by code_simp
  have b: "count_char ?b 59 = 1" "\<not> endswith (rstrip ?b) (lit '';'')"
    "\<not> select_rule_rejects ?U ?b" by code_simp+
  have bk: "\<not> keyword_rule_rejects ?U ?b" unfolding keyword_rule_by_scan by code_simp
  have c: "count_char ?c 59 = 1" "endswith (rstrip ?c) (lit '';'')"
    "\<not> select_rule_rejects ?U ?c" by code_simp+
  have ck: "\<not> keyword_rule_rejects ?U ?c" unfolding keyword_rule_by_scan by code_simp
  have d: "1 < count_char ?d 59" by code_simp
  have e: "1 < count_char ?e 59" "\<not> select_rule_rejects ?U ?e" by code_simp+
  have ek: "\<not> keyword_rule_rejects ?U ?e" unfolding keyword_rule_by_scan by code_simp
  have ra: "validate_sql_safety ?U ?a = (False, lit ''Multiple SQL statements not allowed'')"
    using semicolon_rule [OF U, of ?a] a ak by blast
  have rb: "validate_sql_safety ?U ?b = (False, lit ''Multiple SQL statements not allowed'')"
    using semicolon_rule [OF U, of ?b] b bk by blast
  have rc: "validate_sql_safety ?U ?c = (True, [])"
    using semicolon_rule [OF U, of ?c] c ck by blast
  have rd: "fst (validate_sql_safety ?U ?d) = False"
    using semicolon_rule [OF U, of ?d] d by blast
  have re: "validate_sql_safety ?U ?e = (False, lit ''Multiple SQL statements not allowed'')"
    using semicolon_rule [OF U, of ?e] e ek by blast
  show ?thesis using U a ak ra b bk rb c ck rc d rd e ek re by blast
qed


section \<open>Properties of the extraction of SQL from the reply\<close>

subsection \<open>strip\<close>

lemma rstrip_idem: "rstrip (rstrip s) = rstrip s"
  by (simp add: rstrip_def)

lemma rstrip_Cons_nonspace: "\<not> isspace a \<Longrightarrow> rstrip (a # u) = a # rstrip u"
  by (simp add: rstrip_def dropWhile_append3)

lemma lstrip_rstrip: "t = [] \<or> \<not> isspace (hd t) \<Longrightarrow> lstrip (rstrip t) = rstrip t"
proof (cases t)
  case Nil
  then show ?thesis by (simp add: rstrip_def lstrip_def)
next
  case (Cons a u)
  assume "t = [] \<or> \<not> isspace (hd t)"
  with Cons have "\<not> isspace a" by simp
  then have "rstrip t = a # rstrip u" "lstrip (a # rstrip u) = a # rstrip u"
    using Cons by (simp_all add: rstrip_Cons_nonspace lstrip_def)
  then show ?thesis by simp
qed

lemma lstrip_starts: "lstrip s = [] \<or> \<not> isspace (hd (lstrip s))"
  unfolding lstrip_def using hd_dropWhile [of isspace s] by blast

lemma lstrip_rstrip_lstrip: "lstrip (rstrip (lstrip s)) = rstrip (lstrip s)"
  using lstrip_starts by (rule lstrip_rstrip)

lemma strip_idem: "strip (strip s) = strip s"
  by (simp add: strip_def lstrip_rstrip_lstrip rstrip_idem)

lemma strip_extract: "strip (extract_sql_from_response r) = extract_sql_from_response r"
  by (simp add: extract_sql_from_response_def Let_def strip_idem)

subsection \<open>The two cuts\<close>

lemma after_first_newline_split:
  assumes "10 \<notin> set first"
  shows "after_first_newline (first @ 10 # rest) = rest"
proof -
  have "dropWhile (\<lambda>c. c \<noteq> 10) first = []"
    using assms by (auto simp: dropWhile_eq_Nil_conv)
  then show ?thesis by (simp add: after_first_newline_def dropWhile_append3)
qed

lemma rfind_endswith:
  assumes "endswith s sep"
  shows "rfind s sep = Some (length s - length sep)"
proof -
  have "rev [0..<Suc (length s - length sep)]
      = (length s - length sep) # rev [0..<length s - length sep]" by simp
  moreover have "take (length sep) (drop (length s - length sep) s) = sep"
    using assms by (simp add: endswith_def)
  ultimately show ?thesis unfolding rfind_def by simp
qed

lemma rsplit_head_endswith:
  "endswith s sep \<Longrightarrow> rsplit_head s sep = take (length s - length sep) s"
  by (simp add: rsplit_head_def rfind_endswith)

lemma endswith_append [simp]: "endswith (v @ sep) sep"
  by (simp add: endswith_def)

lemma rsplit_head_append [simp]: "rsplit_head (v @ sep) sep = v"
  by (simp add: rsplit_head_endswith)

text \<open>The extraction, case by case.\<close>

lemma extract_unfenced:
  "\<not> startswith (strip r) fence \<Longrightarrow> extract_sql_from_response r = strip r"
  by (simp add: extract_sql_from_response_def Let_def strip_idem)

lemma extract_lines:
  assumes "startswith (strip r) fence" and "strip r = first @ [10] @ rest" and "10 \<notin> set first"
  shows "extract_sql_from_response r =
     strip (if endswith rest fence then rsplit_head rest fence else rest)"
proof -
  have "10 \<in> set (strip r)" using assms(2) by simp
  moreover have "after_first_newline (strip r) = rest"
    using assms(2,3) by (simp add: after_first_newline_split)
  ultimately show ?thesis
    using assms(1) by (simp add: extract_sql_from_response_def Let_def)
qed

lemma extract_one_line:
  assumes "startswith (strip r) fence" and "10 \<notin> set (strip r)"
  shows "extract_sql_from_response r =
     strip (if endswith (strip r) fence then rsplit_head (strip r) fence else strip r)"
  using assms by (simp add: extract_sql_from_response_def Let_def)

subsection \<open>Extracting twice\<close>

text \<open>
  C9, as stated: applying the extraction to any extracted text changes nothing. A reply
  that opens with two fence lines loses one of them at each application.
\<close>

theorem extract_counterexample:
  "extract_sql_from_response (lit ''```\<newline>```sql\<newline>SELECT 1'') = lit ''```sql\<newline>SELECT 1'' \<and>
   extract_sql_from_response (extract_sql_from_response (lit ''```\<newline>```sql\<newline>SELECT 1''))
     = lit ''SELECT 1'' \<and>
   extract_sql_from_response (extract_sql_from_response (lit ''```\<newline>```sql\<newline>SELECT 1''))
     \<noteq> extract_sql_from_response (lit ''```\<newline>```sql\<newline>SELECT 1'')"
  by code_simp

text \<open>
  C9, amended. The extraction trims the reply. A trimmed reply that does not open with
  a fence is returned as it is, whatever it ends with. When the trimmed reply opens with
  a fence and has a line break, its first line is dropped, up to the first line break;
  when it opens with a fence and has no line break, nothing is dropped at its start.
  Then, in both cases, a fence that ends what is left is cut, and without such a fence
  nothing is cut; the result is trimmed. So the fenced reply of the specification yields
  \<open>SELECT 1\<close>. A trimmed text that does not open with a fence is returned as it is.
  An extracted text is trimmed, and extracting from it again changes nothing when it
  does not open with a fence.
\<close>

theorem extract_clean:
  "extract_sql_from_response (lit ''```sql\<newline>SELECT 1\<newline>```'') = lit ''SELECT 1'' \<and>
   (\<not> startswith (strip r) fence \<longrightarrow> extract_sql_from_response r = strip r) \<and>
   (startswith (strip r) fence \<and> strip r = first @ [10] @ rest \<and> 10 \<notin> set first \<longrightarrow>
      (rest = v @ fence \<longrightarrow> extract_sql_from_response r = strip v) \<and>
      (\<not> endswith rest fence \<longrightarrow> extract_sql_from_response r = strip rest)) \<and>
   (startswith (strip r) fence \<and> 10 \<notin> set (strip r) \<longrightarrow>
      (strip r = w @ fence \<longrightarrow> extract_sql_from_response r = strip w) \<and>
      (\<not> endswith (strip r) fence \<longrightarrow> extract_sql_from_response r = strip r)) \<and>
   (strip s = s \<and> \<not> startswith s fence \<longrightarrow> extract_sql_from_response s = s) \<and>
   strip (extract_sql_from_response r) = extract_sql_from_response r \<and>
   (\<not> startswith (extract_sql_from_response r) fence \<longrightarrow>
      extract_sql_from_response (extract_sql_from_response r) = extract_sql_from_response r)"
proof -
  have ex: "extract_sql_from_response (lit ''```sql\<newline>SELECT 1\<newline>```'') = lit ''SELECT 1''"
    by code_simp
  have clean: "extract_sql_from_response t = t" if "strip t = t" "\<not> startswith t fence" for t
    using that extract_unfenced [of t] by simp
  have lines: "extract_sql_from_response r = strip v"
    if "startswith (strip r) fence" "strip r = first @ [10] @ rest" "10 \<notin> set first"
      "rest = v @ fence"
    using extract_lines [OF that(1-3)] that(4) by simp
  have lines': "extract_sql_from_response r = strip rest"
    if "startswith (strip r) fence" "strip r = first @ [10] @ rest" "10 \<notin> set first"
      "\<not> endswith rest fence"
    using extract_lines [OF that(1-3)] that(4) by simp
  have one: "extract_sql_from_response r = strip w"
    if "startswith (strip r) fence" "10 \<notin> set (strip r)" "strip r = w @ fence"
    using extract_one_line [OF that(1,2)] that(3) by simp
  have one': "extract_sql_from_response r = strip r"
    if "startswith (strip r) fence" "10 \<notin> set (strip r)" "\<not> endswith (strip r) fence"
    using extract_one_line [OF that(1,2)] that(3) by (simp add: strip_idem)
  show ?thesis
    using ex clean [of s] clean [OF strip_extract, of r] strip_extract [of r]
      extract_unfenced [of r] lines lines' one one'
    by blast
qed

theorem extract_clean_witness:
  "\<not> startswith (strip (lit ''SELECT 1\<newline>```'')) fence \<and>
   extract_sql_from_response (lit ''SELECT 1\<newline>```'') = lit ''SELECT 1\<newline>```'' \<and>
   startswith (strip (lit '' ```sql\<newline>SELECT a FROM t;\<newline>``` '')) fence \<and>
   strip (lit '' ```sql\<newline>SELECT a FROM t;\<newline>``` '') =
     lit ''```sql'' @ [10] @ lit ''SELECT a FROM t;\<newline>```'' \<and>
   10 \<notin> set (lit ''```sql'') \<and>
   lit ''SELECT a FROM t;\<newline>```'' = lit ''SELECT a FROM t;\<newline>'' @ fence \<and>
   extract_sql_from_response (lit '' ```sql\<newline>SELECT a FROM t;\<newline>``` '') = lit ''SELECT a FROM t;'' \<and>
   startswith (strip (lit ''```sql\<newline>SELECT 1'')) fence \<and>
   strip (lit ''```sql\<newline>SELECT 1'') = lit ''```sql'' @ [10] @ lit ''SELECT 1'' \<and>
   \<not> endswith (lit ''SELECT 1'') fence \<and>
   extract_sql_from_response (lit ''```sql\<newline>SELECT 1'') = lit ''SELECT 1'' \<and>
   startswith (strip (lit ''```sql SELECT 1```'')) fence \<and>
   10 \<notin> set (strip (lit ''```sql SELECT 1```'')) \<and>
   strip (lit ''```sql SELECT 1```'') = lit ''```sql SELECT 1'' @ fence \<and>
   extract_sql_from_response (lit ''```sql SELECT 1```'') = lit ''```sql SELECT 1'' \<and>
   startswith (strip (lit ''```sql SELECT 1'')) fence \<and>
   10 \<notin> set (strip (lit ''```sql SELECT 1'')) \<and>
   \<not> endswith (strip (lit ''```sql SELECT 1'')) fence \<and>
   extract_sql_from_response (lit ''```sql SELECT 1'') = lit ''```sql SELECT 1'' \<and>
   strip (lit ''SELECT 1'') = lit ''SELECT 1'' \<and>
   \<not> startswith (lit ''SELECT 1'') fence \<and>
   extract_sql_from_response (lit ''SELECT 1'') = lit ''SELECT 1'' \<and>
   \<not> startswith (extract_sql_from_response (lit '' ```sql\<newline>SELECT a FROM t;\<newline>``` '')) fence \<and>
   extract_sql_from_response (extract_sql_from_response (lit '' ```sql\<newline>SELECT a FROM t;\<newline>``` ''))
     = extract_sql_from_response (lit '' ```sql\<newline>SELECT a FROM t;\<newline>``` '')"
proof -
  let ?a = "lit ''SELECT 1\<newline>```''"
  let ?b = "lit '' ```sql\<newline>SELECT a FROM t;\<newline>``` ''"
  let ?c = "lit ''```sql\<newline>SELECT 1''"
  let ?d = "lit ''```sql SELECT 1```''"
  let ?e = "lit ''```sql SELECT 1''"
  let ?s = "lit ''SELECT 1''"
  have a: "\<not> startswith (strip ?a) fence" "strip ?a = ?a" by code_simp+
  have b: "startswith (strip ?b) fence"
    "strip ?b = lit ''```sql'' @ [10] @ lit ''SELECT a FROM t;\<newline>```''"
    "10 \<notin> set (lit ''```sql'')"
    "lit ''SELECT a FROM t;\<newline>```'' = lit ''SELECT a FROM t;\<newline>'' @ fence"
    by code_simp+
  have b': "strip (lit ''SELECT a FROM t;\<newline>'') = lit ''SELECT a FROM t;''" by code_simp
  have c: "startswith (strip ?c) fence" "strip ?c = lit ''```sql'' @ [10] @ lit ''SELECT 1''"
    "\<not> endswith (lit ''SELECT 1'') fence" by code_simp+
  have d: "startswith (strip ?d) fence" "10 \<notin> set (strip ?d)"
    "strip ?d = lit ''```sql SELECT 1'' @ fence" by code_simp+
  have d': "strip (lit ''```sql SELECT 1'') = lit ''```sql SELECT 1''" by code_simp
  have e: "startswith (strip ?e) fence" "10 \<notin> set (strip ?e)"
    "\<not> endswith (strip ?e) fence" by code_simp+
  have s: "strip ?s = ?s" "\<not> startswith ?s fence" by code_simp+
  have g: "\<not> startswith (extract_sql_from_response ?b) fence" by code_simp
  have ra: "extract_sql_from_response ?a = ?a"
    using extract_clean [where r = ?a] a by simp
  have rb: "extract_sql_from_response ?b = lit ''SELECT a FROM t;''"
    using extract_clean [where r = ?b and first = "lit ''```sql''"
        and rest = "lit ''SELECT a FROM t;\<newline>```''" and v = "lit ''SELECT a FROM t;\<newline>''"]
      b b' by simp
  have rc: "extract_sql_from_response ?c = lit ''SELECT 1''"
    using extract_clean [where r = ?c and first = "lit ''```sql''" and rest = "lit ''SELECT 1''"]
      c b(3) s(1) by simp
  have rd: "extract_sql_from_response ?d = lit ''```sql SELECT 1''"
    using extract_clean [where r = ?d and w = "lit ''```sql SELECT 1''"] d d' by simp
  have re: "extract_sql_from_response ?e = ?e"
    using extract_clean [where r = ?e] e d' by simp
  have rs: "extract_sql_from_response ?s = ?s"
    using extract_clean [where s = ?s] s by simp
  have rg: "extract_sql_from_response (extract_sql_from_response ?b)
      = extract_sql_from_response ?b"
    using extract_clean [where r = ?b] g by simp
  show ?thesis using a b c d e s g ra rb rc rd re rs rg by simp
qed



section \<open>Properties of the execution of a query\<close>

subsection \<open>The cap on the rows\<close>

lemma slice_to_all: "int (length xs) \<le> m \<Longrightarrow> slice_to xs m = xs"
  by (simp add: slice_to_def)

lemma limit_results_truncate:
  "limit_results cfg rs = fst (truncate_results rs (MAX_RESULT_ROWS cfg))"
  by (simp add: limit_results_def truncate_results_def slice_to_all)

lemma execute_try_rows:
  "execute_try cl cfg db sql params t = (Inr rows, tr, conn, cur) \<Longrightarrow>
     \<exists>fetched. on_fetchall db = Inr fetched \<and> rows = limit_results cfg fetched"
  unfolding execute_try_def
  by (auto split: sum.splits option.splits simp: Let_def)

lemma execute_query_rows:
  "execute_query U cl cfg db sql params t = (Inr rows, tr) \<Longrightarrow>
     \<exists>fetched. on_fetchall db = Inr fetched \<and> rows = limit_results cfg fetched"
  unfolding execute_query_def
  by (auto split: if_splits prod.splits dest: execute_try_rows)

lemma execute_query_ok:
  assumes "skips_validation U sql \<or> fst (validate_sql_safety U sql)"
    and "pool_initialized cl" and "on_getconn db = Inr c" and "on_cursor db = None"
    and "on_set_timeout db = None" and "on_execute db = None" and "on_fetchall db = Inr fetched"
  shows "execute_query U cl cfg db sql params t =
     (Inr (limit_results cfg fetched),
      [GetConn c, OpenCursor c, SetTimeout c (timeout_ms cfg t),
       Execute c sql (given_params params), FetchAll c, CloseCursor c, PutConn c])"
  using assms
  by (auto simp: execute_query_def execute_try_def get_connection_def execute_finally_def
      return_connection_def Let_def)

lemma example_rows_limit:
  "limit_results example_config (example_rows 305) = example_rows 300"
  by (simp add: limit_results_def example_config_def example_rows_def slice_to_def take_map)

lemma example_rows_50:
  "limit_results example_config (example_rows 50) = example_rows 50"
  by (simp add: limit_results_def example_config_def example_rows_def)

lemma example_rows_keep:
  "limit_results example_config (example_rows 300) = example_rows 300"
  by (simp add: limit_results_def example_config_def example_rows_def)

lemma example_run:
  "execute_query example_unicode example_client example_config (db_returning rows)
       (lit ''SELECT id FROM t'') None None
     = (Inr (limit_results example_config rows), example_trace)"
proof -
  have v: "skips_validation example_unicode (lit ''SELECT id FROM t'') \<or>
      fst (validate_sql_safety example_unicode (lit ''SELECT id FROM t''))"
    by code_simp
  have "execute_query example_unicode example_client example_config (db_returning rows)
        (lit ''SELECT id FROM t'') None None =
     (Inr (limit_results example_config rows),
      [GetConn 7, OpenCursor 7, SetTimeout 7 (timeout_ms example_config None),
       Execute 7 (lit ''SELECT id FROM t'') (given_params None), FetchAll 7, CloseCursor 7, PutConn 7])"
    by (rule execute_query_ok [OF v]) (simp_all add: example_client_def db_returning_def)
  then show ?thesis
    by (simp add: example_trace_def timeout_ms_def given_params_def example_config_def)
qed

lemma failing_run:
  assumes "skips_validation U sql \<or> fst (validate_sql_safety U sql)"
  shows "execute_query U example_client example_config (db_failing e) sql None None
     = (Inl e, failure_trace)"
  using assms
  by (simp add: execute_query_def execute_try_def get_connection_def execute_finally_def
      return_connection_def Let_def example_client_def db_failing_def failure_trace_def
      timeout_ms_def example_config_def)

text \<open>
  C2, as stated: the result of an executed query is marked as truncated when rows were
  cut. \<open>execute_query\<close> returns the list of rows and nothing else: a result set of 305
  rows, which is cut, and the result set of its first 300 rows, which is not, give the
  same result and the same trace.
\<close>

theorem truncated_mark_counterexample:
  "length (example_rows 305) = 305 \<and> length (example_rows 300) = 300 \<and>
   execute_query example_unicode example_client example_config (db_returning (example_rows 305))
       (lit ''SELECT id FROM t'') None None
     = execute_query example_unicode example_client example_config (db_returning (example_rows 300))
       (lit ''SELECT id FROM t'') None None"
  by (simp add: example_run example_rows_limit example_rows_keep) (simp add: example_rows_def)

text \<open>
  C2, amended. With a cap that is not negative, the rows that \<open>execute_query\<close> returns
  are the first rows of the result set up to the cap, so at most the cap: 300 of 305,
  and all 50 of 50 unchanged. The mark is not part of the result; it is what
  \<open>truncate_results\<close> computes beside the same rows: true for 305 rows and false for 50.
\<close>

theorem result_rows_capped:
  assumes "0 \<le> MAX_RESULT_ROWS cfg"
    and "execute_query U cl cfg db sql params t = (Inr rows, tr)"
  shows "\<exists>fetched. on_fetchall db = Inr fetched \<and>
      rows = take (nat (MAX_RESULT_ROWS cfg)) fetched \<and>
      length rows \<le> nat (MAX_RESULT_ROWS cfg) \<and>
      truncate_results fetched (MAX_RESULT_ROWS cfg) =
        (rows, int (length fetched) > MAX_RESULT_ROWS cfg) \<and>
      (MAX_RESULT_ROWS cfg = 300 \<and> length fetched = 305 \<longrightarrow>
         length rows = 300 \<and> truncate_results fetched 300 = (rows, True)) \<and>
      (MAX_RESULT_ROWS cfg = 300 \<and> length fetched = 50 \<longrightarrow>
         rows = fetched \<and> truncate_results fetched 300 = (fetched, False))"
proof -
  from execute_query_rows [OF assms(2)] obtain fetched
    where f: "on_fetchall db = Inr fetched" and r: "rows = limit_results cfg fetched" by blast
  have t: "truncate_results fetched (MAX_RESULT_ROWS cfg) =
      (rows, int (length fetched) > MAX_RESULT_ROWS cfg)"
    using r by (simp add: limit_results_truncate) (simp add: truncate_results_def)
  have k: "rows = take (nat (MAX_RESULT_ROWS cfg)) fetched"
    using r assms(1) by (simp add: limit_results_def slice_to_def)
  show ?thesis using f t k by auto
qed

theorem result_rows_capped_witness:
  "0 \<le> MAX_RESULT_ROWS example_config \<and>
   length (example_rows 305) = 305 \<and>
   execute_query example_unicode example_client example_config (db_returning (example_rows 305))
       (lit ''SELECT id FROM t'') None None = (Inr (example_rows 300), example_trace) \<and>
   length (example_rows 300) = 300 \<and>
   truncate_results (example_rows 305) 300 = (example_rows 300, True) \<and>
   length (example_rows 50) = 50 \<and>
   execute_query example_unicode example_client example_config (db_returning (example_rows 50))
       (lit ''SELECT id FROM t'') None None = (Inr (example_rows 50), example_trace) \<and>
   truncate_results (example_rows 50) 300 = (example_rows 50, False)"
proof -
  have m: "0 \<le> MAX_RESULT_ROWS example_config" "MAX_RESULT_ROWS example_config = 300"
    by (simp_all add: example_config_def)
  have l: "length (example_rows 305) = 305" "length (example_rows 300) = 300"
    "length (example_rows 50) = 50" by (simp_all add: example_rows_def)
  have a: "execute_query example_unicode example_client example_config (db_returning (example_rows 305))
       (lit ''SELECT id FROM t'') None None = (Inr (example_rows 300), example_trace)"
    by (simp add: example_run example_rows_limit)
  have b: "execute_query example_unicode example_client example_config (db_returning (example_rows 50))
       (lit ''SELECT id FROM t'') None None = (Inr (example_rows 50), example_trace)"
    by (simp add: example_run example_rows_50)
  from result_rows_capped [OF m(1) a]
  have "truncate_results (example_rows 305) 300 = (example_rows 300, True)"
    using m(2) l by (auto simp: db_returning_def)
  moreover from result_rows_capped [OF m(1) b]
  have "truncate_results (example_rows 50) 300 = (example_rows 50, False)"
    using m(2) l by (auto simp: db_returning_def)
  ultimately show ?thesis using m l a b by blast
qed

subsection \<open>The connection on every exit path\<close>

lemma execute_try_cases:
  "execute_try cl cfg db sql params t = (outcome, tr, conn, cur) \<Longrightarrow>
     (conn = None \<and> tr = [] \<and> \<not> cur \<and> (\<not> pool_initialized cl \<or> (\<exists>e. on_getconn db = Inl e))) \<or>
     (\<exists>c. conn = Some c \<and> pool_initialized cl \<and> on_getconn db = Inr c \<and>
          tr \<noteq> [] \<and> pool_events tr = [GetConn c])"
  unfolding execute_try_def get_connection_def pool_events_def
  by (auto split: sum.splits option.splits if_splits simp: Let_def)

lemma pool_events_append: "pool_events (a @ b) = pool_events a @ pool_events b"
  by (simp add: pool_events_def)

lemma pool_events_finally:
  "pool_events (execute_finally (Some c) cur) = [PutConn c] \<and>
   last (execute_finally (Some c) cur) = PutConn c \<and> execute_finally (Some c) cur \<noteq> []"
  by (simp add: execute_finally_def return_connection_def pool_events_def)

text \<open>
  C10. Whatever happens after the connection is acquired, \<open>execute_query\<close> puts it back
  exactly once, as its last call: the calls on the pool in the trace are one
  \<open>getconn\<close> and one \<open>putconn\<close> of the same connection. A connection is acquired when
  the validator lets the text pass, the pool exists and \<open>getconn\<close> returns; otherwise
  the trace is empty and nothing is to be put back.
\<close>

theorem connection_released_once:
  assumes "execute_query U cl cfg db sql params t = (outcome, tr)"
  shows "(pool_events tr = [] \<or> (\<exists>c. pool_events tr = [GetConn c, PutConn c] \<and> last tr = PutConn c)) \<and>
    ((skips_validation U sql \<or> fst (validate_sql_safety U sql)) \<and> pool_initialized cl \<and>
       on_getconn db = Inr c \<longrightarrow> pool_events tr = [GetConn c, PutConn c] \<and> last tr = PutConn c) \<and>
    (\<not> (skips_validation U sql \<or> fst (validate_sql_safety U sql)) \<or> \<not> pool_initialized cl \<or>
       (\<exists>e. on_getconn db = Inl e) \<longrightarrow> tr = [])"
proof (cases "\<not> skips_validation U sql \<and> \<not> fst (validate_sql_safety U sql)")
  case True
  with assms have "tr = []" by (simp add: execute_query_def)
  with True show ?thesis by (simp add: pool_events_def)
next
  case False
  obtain o' tr' conn cur where e: "execute_try cl cfg db sql params t = (o', tr', conn, cur)"
    by (cases "execute_try cl cfg db sql params t") auto
  with assms False have tr: "tr = tr' @ execute_finally conn cur"
    by (auto simp: execute_query_def)
  from execute_try_cases [OF e] show ?thesis
  proof
    assume n: "conn = None \<and> tr' = [] \<and> \<not> cur \<and>
      (\<not> pool_initialized cl \<or> (\<exists>e. on_getconn db = Inl e))"
    then have "tr = []" using tr by (simp add: execute_finally_def)
    with n show ?thesis by (auto simp: pool_events_def)
  next
    assume "\<exists>c. conn = Some c \<and> pool_initialized cl \<and> on_getconn db = Inr c \<and>
          tr' \<noteq> [] \<and> pool_events tr' = [GetConn c]"
    then obtain c' where c: "conn = Some c'" "pool_initialized cl" "on_getconn db = Inr c'"
      "pool_events tr' = [GetConn c']" by blast
    have "pool_events tr = [GetConn c', PutConn c']"
      using tr c pool_events_finally [of c' cur] by (simp add: pool_events_append)
    moreover have "last tr = PutConn c'"
      using tr c pool_events_finally [of c' cur] by simp
    ultimately show ?thesis using c False by auto
  qed
qed

theorem connection_released_once_witness:
  "execute_query example_unicode example_client example_config
      (db_failing (Exn (lit ''QueryCanceled'') False
          (lit ''canceling statement due to statement timeout'')))
      (lit ''SELECT id FROM t'') None None
     = (Inl (Exn (lit ''QueryCanceled'') False (lit ''canceling statement due to statement timeout'')),
        failure_trace) \<and>
   fst (validate_sql_safety example_unicode (lit ''SELECT id FROM t'')) \<and>
   pool_initialized example_client \<and>
   on_getconn (db_failing
      (Exn (lit ''QueryCanceled'') False
         (lit ''canceling statement due to statement timeout''))) = Inr 7 \<and>
   pool_events failure_trace = [GetConn 7, PutConn 7] \<and>
   last failure_trace = PutConn 7 \<and>
   execute_query example_unicode example_client example_config (db_returning (example_rows 50))
      (lit ''SELECT id FROM t'') None None = (Inr (example_rows 50), example_trace) \<and>
   on_getconn (db_returning (example_rows 50)) = Inr 7 \<and>
   pool_events example_trace = [GetConn 7, PutConn 7] \<and>
   last example_trace = PutConn 7 \<and>
   \<not> pool_initialized \<lparr>pool_initialized = False\<rparr> \<and>
   snd (execute_query example_unicode \<lparr>pool_initialized = False\<rparr> example_config (db_returning [])
      (lit ''SELECT id FROM t'') None None) = []"
proof -
  let ?e = "Exn (lit ''QueryCanceled'') False (lit ''canceling statement due to statement timeout'')"
  let ?nopool = "\<lparr>pool_initialized = False\<rparr>"
  have v: "fst (validate_sql_safety example_unicode (lit ''SELECT id FROM t''))" by code_simp
  have p: "pool_initialized example_client" "\<not> pool_initialized ?nopool"
    by (simp_all add: example_client_def)
  have g: "on_getconn (db_failing ?e) = Inr 7" "on_getconn (db_returning (example_rows 50)) = Inr 7"
    by (simp_all add: db_failing_def db_returning_def)
  have a: "execute_query example_unicode example_client example_config (db_failing ?e)
      (lit ''SELECT id FROM t'') None None = (Inl ?e, failure_trace)"
    by (rule failing_run [OF disjI2 [OF v]])
  have b: "execute_query example_unicode example_client example_config (db_returning (example_rows 50))
      (lit ''SELECT id FROM t'') None None = (Inr (example_rows 50), example_trace)"
    by (simp add: example_run example_rows_50)
  obtain r tr where c: "execute_query example_unicode ?nopool example_config (db_returning [])
      (lit ''SELECT id FROM t'') None None = (r, tr)"
    by (cases "execute_query example_unicode ?nopool example_config (db_returning [])
      (lit ''SELECT id FROM t'') None None") auto
  from connection_released_once [OF a, of 7] v p g
  have a': "pool_events failure_trace = [GetConn 7, PutConn 7]" "last failure_trace = PutConn 7"
    by blast+
  from connection_released_once [OF b, of 7] v p g
  have b': "pool_events example_trace = [GetConn 7, PutConn 7]" "last example_trace = PutConn 7"
    by blast+
  from connection_released_once [OF c, of 7] p have "tr = []" by blast
  with c have c': "snd (execute_query example_unicode ?nopool example_config (db_returning [])
      (lit ''SELECT id FROM t'') None None) = []" by simp
  show ?thesis using a v p g a' b b' c' by blast
qed

subsection \<open>The validator and the introspection queries\<close>

lemma ascii_sql_constants:
  "ascii_only tables_sql_target" "ascii_only tables_sql_default" "ascii_only columns_sql"
  by code_simp+

lemma skips_tables_sql_target:
  assumes "ascii_tables U"
  shows "skips_validation U tables_sql_target"
proof -
  have "skips_validation example_unicode tables_sql_target" by code_simp
  then show ?thesis
    using skips_validation_ascii [OF assms ascii_tables_example ascii_sql_constants(1)] by simp
qed

lemma skips_tables_sql_default:
  assumes "ascii_tables U"
  shows "skips_validation U tables_sql_default"
proof -
  have "skips_validation example_unicode tables_sql_default" by code_simp
  then show ?thesis
    using skips_validation_ascii [OF assms ascii_tables_example ascii_sql_constants(2)] by simp
qed

lemma validates_columns_sql:
  assumes "ascii_tables U"
  shows "\<not> skips_validation U columns_sql"
proof -
  have "\<not> skips_validation example_unicode columns_sql" by code_simp
  then show ?thesis
    using skips_validation_ascii [OF assms ascii_tables_example ascii_sql_constants(3)] by simp
qed

lemma columns_sql_accepted:
  assumes "ascii_tables U"
  shows "validate_sql_safety U columns_sql = (True, [])"
proof -
  let ?U = example_unicode
  have "\<not> scan_keywords ?U False dangerous_keywords (upper ?U columns_sql)" by code_simp
  then have n: "\<not> keyword_rule_rejects ?U columns_sql" by (simp add: keyword_rule_by_scan)
  have "\<not> select_rule_rejects ?U columns_sql" by code_simp
  moreover have "count_char columns_sql 59 = 0" by code_simp
  ultimately have "validate_sql_safety ?U columns_sql = (True, [])"
    by (simp add: validate_no_keyword [OF ascii_tables_example n])
  then show ?thesis
    using validate_ascii [OF assms ascii_tables_example ascii_sql_constants(3)] by simp
qed


section \<open>Properties of the schema cache\<close>

subsection \<open>Schema fetches in a trace\<close>

lemma schema_fetches_append: "schema_fetches (a @ b) = schema_fetches a + schema_fetches b"
  by (simp add: schema_fetches_def)

lemma schema_fetches_Nil: "schema_fetches [] = 0"
  by (simp add: schema_fetches_def)

lemma schema_fetches_execute_try:
  "execute_try cl cfg db sql params t = (r, tr, conn, cur) \<Longrightarrow> schema_fetches tr = 0"
  unfolding execute_try_def schema_fetches_def
  by (auto split: sum.splits option.splits simp: Let_def)

lemma schema_fetches_finally: "schema_fetches (execute_finally conn cur) = 0"
  by (simp add: execute_finally_def return_connection_def schema_fetches_def split: option.splits)

lemma schema_fetches_execute_query:
  assumes "execute_query U cl cfg db sql params t = (r, tr)"
  shows "schema_fetches tr = 0"
proof (cases "\<not> skips_validation U sql \<and> \<not> fst (validate_sql_safety U sql)")
  case True
  with assms show ?thesis by (simp add: execute_query_def schema_fetches_Nil)
next
  case False
  obtain r' tr' conn cur where e: "execute_try cl cfg db sql params t = (r', tr', conn, cur)"
    by (cases "execute_try cl cfg db sql params t") auto
  with assms False have "tr = tr' @ execute_finally conn cur"
    by (auto simp: execute_query_def)
  then show ?thesis
    using schema_fetches_execute_try [OF e]
    by (simp add: schema_fetches_append schema_fetches_finally)
qed

lemma schema_fetches_fetch_columns:
  "fetch_columns U cl cfg wh n tables acc = (r, tr) \<Longrightarrow> schema_fetches tr = 0"
proof (induction tables arbitrary: n acc r tr)
  case Nil
  then show ?case by (simp add: schema_fetches_Nil)
next
  case (Cons table tables)
  show ?case
  proof (cases "getitem table (lit ''table_schema'')")
    case (Inl e)
    with Cons.prems show ?thesis by (simp add: schema_fetches_Nil)
  next
    case ts: (Inr table_schema)
    show ?thesis
    proof (cases "getitem table (lit ''table_name'')")
      case (Inl e)
      with Cons.prems ts show ?thesis by (simp add: schema_fetches_Nil)
    next
      case tn: (Inr table_name)
      obtain r1 tr1 where q: "execute_query U cl cfg (wh n columns_sql [table_schema, table_name])
          columns_sql (Some [table_schema, table_name]) (Some 120) = (r1, tr1)"
        by (cases "execute_query U cl cfg (wh n columns_sql [table_schema, table_name])
          columns_sql (Some [table_schema, table_name]) (Some 120)") auto
      have z1: "schema_fetches tr1 = 0" by (rule schema_fetches_execute_query [OF q])
      show ?thesis
      proof (cases r1)
        case (Inl e)
        with Cons.prems ts tn q z1 show ?thesis by (simp add: Let_def)
      next
        case rows: (Inr columns)
        show ?thesis
        proof (cases "make_columns columns")
          case (Inl e)
          with Cons.prems ts tn q z1 rows show ?thesis by (simp add: Let_def)
        next
          case cols: (Inr cs)
          obtain r2 tr2 where rest: "fetch_columns U cl cfg wh (Suc n) tables
              (acc @ [\<lparr>tbl_name = table_schema @ lit ''.'' @ table_name, tbl_columns = cs\<rparr>]) = (r2, tr2)"
            by (cases "fetch_columns U cl cfg wh (Suc n) tables
              (acc @ [\<lparr>tbl_name = table_schema @ lit ''.'' @ table_name, tbl_columns = cs\<rparr>])") auto
          have "schema_fetches tr2 = 0" by (rule Cons.IH [OF rest])
          moreover have "tr = tr1 @ tr2"
            using Cons.prems ts tn q rows cols rest by (simp add: Let_def)
          ultimately show ?thesis using z1 by (simp add: schema_fetches_append)
        qed
      qed
    qed
  qed
qed

lemma schema_fetches_list_tables:
  "list_tables U cl cfg wh target = (r, tr) \<Longrightarrow> schema_fetches tr = 0"
  unfolding list_tables_def
  by (auto split: option.splits list.splits dest: schema_fetches_execute_query)

lemma schema_fetches_get_schema_try:
  assumes "get_schema_try U cl cfg wh target = (r, tr)"
  shows "schema_fetches tr = 0"
proof -
  obtain r1 tr1 where l: "list_tables U cl cfg wh target = (r1, tr1)"
    by (cases "list_tables U cl cfg wh target") auto
  have z: "schema_fetches tr1 = 0" by (rule schema_fetches_list_tables [OF l])
  show ?thesis
  proof (cases r1)
    case (Inl e)
    with assms l z show ?thesis by (simp add: get_schema_try_def)
  next
    case (Inr tables)
    obtain r2 tr2 where f: "fetch_columns U cl cfg wh 1 tables [] = (r2, tr2)"
      by (cases "fetch_columns U cl cfg wh 1 tables []") auto
    have "schema_fetches tr2 = 0" by (rule schema_fetches_fetch_columns [OF f])
    moreover have "tr = tr1 @ tr2" using assms l Inr f by (simp add: get_schema_try_def)
    ultimately show ?thesis using z by (simp add: schema_fetches_append)
  qed
qed

lemma schema_fetches_get_schema:
  assumes "get_schema U cl cfg wh target = (s, tr)"
  shows "schema_fetches tr = 1"
proof -
  obtain r tr' where t: "get_schema_try U cl cfg wh target = (r, tr')"
    by (cases "get_schema_try U cl cfg wh target") auto
  have "schema_fetches tr' = 0" by (rule schema_fetches_get_schema_try [OF t])
  moreover have "tr = SchemaFetch target # tr'"
    using assms t by (cases r) (simp_all add: get_schema_def)
  ultimately show ?thesis by (simp add: schema_fetches_def)
qed

lemma get_schema_info_eq:
  "get_schema_info U g cl cfg wh now =
     (if cache_fresh g now then (the (schema_cache g), g, [])
      else refresh_schema U g cl cfg wh now)"
  by (auto simp: get_schema_info_def cache_fresh_def split: option.splits)

lemma refresh_schema_eq:
  "refresh_schema U g cl cfg wh now =
     (fst (get_schema U cl cfg wh (Some (REDSHIFT_SCHEMA cfg))),
      g\<lparr>schema_cache := Some (fst (get_schema U cl cfg wh (Some (REDSHIFT_SCHEMA cfg)))),
        schema_cache_time := Some now\<rparr>,
      snd (get_schema U cl cfg wh (Some (REDSHIFT_SCHEMA cfg))))"
  by (simp add: refresh_schema_def split: prod.splits)

text \<open>
  C8. After a call that finds the cache empty and fetches at time \<open>t1\<close>, a call less
  than 300 seconds later returns the stored snapshot as it is, leaves the generator as
  it is and has an empty trace, so the two calls make exactly one fetch; a call 300
  seconds later or more makes a fetch of its own, returns what that fetch yields and
  stores it with the new time.
\<close>

theorem schema_cache_ttl:
  assumes "schema_cache g0 = None"
    and "get_schema_info U g0 cl cfg wh1 t1 = (s1, g1, tr1)"
  shows "schema_fetches tr1 = 1 \<and>
    (t2 - t1 < 300 \<longrightarrow>
       get_schema_info U g1 cl cfg wh2 t2 = (s1, g1, []) \<and>
       schema_fetches (tr1 @ snd (snd (get_schema_info U g1 cl cfg wh2 t2))) = 1) \<and>
    (300 \<le> t3 - t1 \<longrightarrow>
       get_schema_info U g1 cl cfg wh3 t3 =
         (fst (get_schema U cl cfg wh3 (Some (REDSHIFT_SCHEMA cfg))),
          g1\<lparr>schema_cache := Some (fst (get_schema U cl cfg wh3 (Some (REDSHIFT_SCHEMA cfg)))),
             schema_cache_time := Some t3\<rparr>,
          snd (get_schema U cl cfg wh3 (Some (REDSHIFT_SCHEMA cfg)))) \<and>
       schema_fetches (snd (snd (get_schema_info U g1 cl cfg wh3 t3))) = 1)"
proof -
  have nf: "\<not> cache_fresh g0 t1" using assms(1) by (simp add: cache_fresh_def)
  with assms(2) have r: "refresh_schema U g0 cl cfg wh1 t1 = (s1, g1, tr1)"
    by (simp add: get_schema_info_eq)
  then have s1: "s1 = fst (get_schema U cl cfg wh1 (Some (REDSHIFT_SCHEMA cfg)))"
    and g1: "g1 = g0\<lparr>schema_cache := Some s1, schema_cache_time := Some t1\<rparr>"
    and tr1: "tr1 = snd (get_schema U cl cfg wh1 (Some (REDSHIFT_SCHEMA cfg)))"
    by (auto simp: refresh_schema_eq)
  have f1: "schema_fetches tr1 = 1"
    using schema_fetches_get_schema [of U cl cfg wh1 "Some (REDSHIFT_SCHEMA cfg)" s1 tr1] s1 tr1
    by simp
  have fresh: "cache_fresh g1 t \<longleftrightarrow> t - t1 < 300" for t
    by (simp add: g1 cache_fresh_def cache_duration_def)
  have hit: "get_schema_info U g1 cl cfg wh2 t2 = (s1, g1, [])" if "t2 - t1 < 300"
    using that fresh by (simp add: get_schema_info_eq) (simp add: g1)
  have miss: "get_schema_info U g1 cl cfg wh3 t3 =
         (fst (get_schema U cl cfg wh3 (Some (REDSHIFT_SCHEMA cfg))),
          g1\<lparr>schema_cache := Some (fst (get_schema U cl cfg wh3 (Some (REDSHIFT_SCHEMA cfg)))),
             schema_cache_time := Some t3\<rparr>,
          snd (get_schema U cl cfg wh3 (Some (REDSHIFT_SCHEMA cfg))))" if "300 \<le> t3 - t1"
    using that fresh [of t3] by (simp add: get_schema_info_eq refresh_schema_eq)
  have f3: "schema_fetches (snd (get_schema U cl cfg wh3 (Some (REDSHIFT_SCHEMA cfg)))) = 1"
    using schema_fetches_get_schema [of U cl cfg wh3 "Some (REDSHIFT_SCHEMA cfg)"]
    by (cases "get_schema U cl cfg wh3 (Some (REDSHIFT_SCHEMA cfg))") auto
  show ?thesis using f1 hit miss f3 by (auto simp: schema_fetches_append schema_fetches_Nil)
qed

subsection \<open>A fetch from the example warehouse\<close>

lemma make_columns_examples:
  "make_columns [id_column] = Inr [id_info]"
  "make_columns [id_column, total_column] = Inr [id_info, total_info]"
  by code_simp+

lemma orders_fetch:
  assumes U: "ascii_tables U"
    and "make_columns columns = Inr cols" and "length columns \<le> 300"
  shows "get_schema U example_client example_config (orders_warehouse columns) (Some (lit ''public''))
     = (orders_snapshot cols, fetch_trace)"
proof -
  let ?table = "[(lit ''table_schema'', lit ''public''), (lit ''table_name'', lit ''orders'')]"
  obtain c cs where lit_public: "lit ''public'' = c # cs" by (simp add: lit_def)
  have l: "list_tables U example_client example_config (orders_warehouse columns) (Some (lit ''public''))
      = (Inr [?table],
         [GetConn 7, OpenCursor 7, SetTimeout 7 120000,
          Execute 7 tables_sql_target (Some [lit ''public'']), FetchAll 7, CloseCursor 7, PutConn 7])"
    unfolding list_tables_def lit_public
    by (simp add: lit_public execute_query_ok [where c = 7 and fetched = "[?table]"]
        skips_tables_sql_target [OF U] example_client_def orders_warehouse_def db_returning_def
        limit_results_def example_config_def timeout_ms_def given_params_def)
  have q: "execute_query U example_client example_config
        (orders_warehouse columns (Suc 0) columns_sql [lit ''public'', lit ''orders'']) columns_sql
        (Some [lit ''public'', lit ''orders'']) (Some 120)
      = (Inr columns,
         [GetConn 7, OpenCursor 7, SetTimeout 7 120000,
          Execute 7 columns_sql (Some [lit ''public'', lit ''orders'']), FetchAll 7, CloseCursor 7,
          PutConn 7])"
    using assms(3)
    by (simp add: execute_query_ok [where c = 7 and fetched = columns]
        columns_sql_accepted [OF U] example_client_def orders_warehouse_def db_returning_def
        limit_results_def example_config_def timeout_ms_def given_params_def)
  have f: "fetch_columns U example_client example_config (orders_warehouse columns) (Suc 0) [?table] []
      = (Inr (orders_snapshot cols),
         [GetConn 7, OpenCursor 7, SetTimeout 7 120000,
          Execute 7 columns_sql (Some [lit ''public'', lit ''orders'']), FetchAll 7, CloseCursor 7,
          PutConn 7])"
    by (simp add: Let_def getitem_def q assms(2) orders_snapshot_def lit_append [symmetric])
  show ?thesis
    by (simp add: get_schema_def get_schema_try_def l f fetch_trace_def del: fetch_columns.simps)
qed

text \<open>
  C6. The two statements that list the tables start, once trimmed and in upper case, with
  \<open>SELECT TABLE_SCHEMA\<close>, so \<open>execute_query\<close> skips the validator for them. The
  statement that reads the columns of a table has a line break after \<open>SELECT\<close>: it
  starts with neither prefix, and \<open>execute_query\<close> applies the validator to it, which
  accepts it. Both kinds of statement run through \<open>execute_query\<close>: in a fetch from the
  example warehouse each takes a connection from the pool, sets the timeout of 120
  seconds, and puts the connection back.
\<close>

theorem column_query_is_validated:
  assumes "ascii_tables U"
  shows "skips_validation U tables_sql_target \<and> skips_validation U tables_sql_default \<and>
   \<not> skips_validation U columns_sql \<and> validate_sql_safety U columns_sql = (True, []) \<and>
   get_schema U example_client example_config (orders_warehouse [id_column]) (Some (lit ''public''))
     = (orders_snapshot [id_info], fetch_trace)"
  using skips_tables_sql_target [OF assms] skips_tables_sql_default [OF assms]
    validates_columns_sql [OF assms] columns_sql_accepted [OF assms]
    orders_fetch [OF assms make_columns_examples(1)] by simp

theorem column_query_is_validated_witness:
  "ascii_tables example_unicode \<and>
   skips_validation example_unicode tables_sql_target \<and>
   skips_validation example_unicode tables_sql_default \<and>
   \<not> skips_validation example_unicode columns_sql \<and>
   validate_sql_safety example_unicode columns_sql = (True, []) \<and>
   get_schema example_unicode example_client example_config (orders_warehouse [id_column])
       (Some (lit ''public''))
     = (orders_snapshot [id_info], fetch_trace)"
  using column_query_is_validated [OF ascii_tables_example] ascii_tables_example by simp

theorem schema_cache_ttl_witness:
  "schema_cache fresh_generator = None \<and>
   get_schema_info example_unicode fresh_generator example_client example_config
       (orders_warehouse [id_column]) 1000
     = (orders_snapshot [id_info], cached_generator (orders_snapshot [id_info]) 1000,
        fetch_trace) \<and>
   schema_fetches fetch_trace = 1 \<and>
   (1299::real) - 1000 < 300 \<and>
   get_schema_info example_unicode (cached_generator (orders_snapshot [id_info]) 1000) example_client
       example_config (orders_warehouse [id_column, total_column]) 1299
     = (orders_snapshot [id_info], cached_generator (orders_snapshot [id_info]) 1000, []) \<and>
   (300::real) \<le> 1300 - 1000 \<and>
   get_schema_info example_unicode (cached_generator (orders_snapshot [id_info]) 1000) example_client
       example_config (orders_warehouse [id_column, total_column]) 1300
     = (orders_snapshot [id_info, total_info],
        cached_generator (orders_snapshot [id_info, total_info]) 1300, fetch_trace)"
proof -
  let ?g1 = "cached_generator (orders_snapshot [id_info]) 1000"
  let ?wh1 = "orders_warehouse [id_column]" and ?wh2 = "orders_warehouse [id_column, total_column]"
  have e: "schema_cache fresh_generator = None" by (simp add: fresh_generator_def)
  have s: "REDSHIFT_SCHEMA example_config = lit ''public''" by (simp add: example_config_def)
  have f1: "get_schema example_unicode example_client example_config ?wh1 (Some (lit ''public''))
      = (orders_snapshot [id_info], fetch_trace)"
    by (rule orders_fetch [OF ascii_tables_example make_columns_examples(1)]) simp
  have f2: "get_schema example_unicode example_client example_config ?wh2 (Some (lit ''public''))
      = (orders_snapshot [id_info, total_info], fetch_trace)"
    by (rule orders_fetch [OF ascii_tables_example make_columns_examples(2)]) simp
  have a: "get_schema_info example_unicode fresh_generator example_client example_config ?wh1 1000
      = (orders_snapshot [id_info], ?g1, fetch_trace)"
    by (simp add: get_schema_info_def refresh_schema_def fresh_generator_def
        cached_generator_def s f1)
  have t: "(1299::real) - 1000 < 300" "(300::real) \<le> 1300 - 1000" by simp_all
  from schema_cache_ttl [OF e a, of 1299 ?wh2 1300 ?wh2] t
  have n: "schema_fetches fetch_trace = 1"
    and h: "get_schema_info example_unicode ?g1 example_client example_config ?wh2 1299
      = (orders_snapshot [id_info], ?g1, [])"
    and m: "get_schema_info example_unicode ?g1 example_client example_config ?wh2 1300 =
         (fst (get_schema example_unicode example_client example_config ?wh2
                 (Some (REDSHIFT_SCHEMA example_config))),
          ?g1\<lparr>schema_cache := Some (fst (get_schema example_unicode example_client example_config ?wh2
                 (Some (REDSHIFT_SCHEMA example_config)))),
             schema_cache_time := Some 1300\<rparr>,
          snd (get_schema example_unicode example_client example_config ?wh2
                 (Some (REDSHIFT_SCHEMA example_config))))"
    by blast+
  have m': "get_schema_info example_unicode ?g1 example_client example_config ?wh2 1300
     = (orders_snapshot [id_info, total_info],
        cached_generator (orders_snapshot [id_info, total_info]) 1300, fetch_trace)"
    unfolding m by (simp add: s f2 cached_generator_def)
  show ?thesis using e a n t h m' by blast
qed

subsection \<open>A fetch that fails\<close>

lemma get_schema_failed:
  "fst (get_schema_try U cl cfg wh target) = Inl e \<Longrightarrow> fst (get_schema U cl cfg wh target) = []"
  by (cases "get_schema_try U cl cfg wh target") (simp add: get_schema_def)

lemma no_pool_execute:
  "\<not> pool_initialized cl \<Longrightarrow> skips_validation U sql \<Longrightarrow>
     execute_query U cl cfg db sql params t
       = (Inl (Exn (lit ''Exception'') False (lit ''Connection pool not initialized'')), [])"
  by (simp add: execute_query_def execute_try_def get_connection_def execute_finally_def)

lemma no_pool_get_schema_try:
  "ascii_tables U \<Longrightarrow> \<not> pool_initialized cl \<Longrightarrow>
     get_schema_try U cl cfg wh target
       = (Inl (Exn (lit ''Exception'') False (lit ''Connection pool not initialized'')), [])"
  by (simp add: get_schema_try_def list_tables_def no_pool_execute skips_tables_sql_target
      skips_tables_sql_default split: option.splits list.splits)

text \<open>
  C3, as stated: when the fetch fails, a snapshot stored before is served and kept, and
  with none stored the failure is raised. With a pool that was never created every
  fetch fails; \<open>_get_schema_info\<close> then returns the empty snapshot and stores it in
  place of the snapshot of \<open>public.orders\<close> that it held, and with nothing stored it
  returns the empty snapshot as well.
\<close>

theorem stale_snapshot_counterexample:
  "fst (get_schema_try example_unicode \<lparr>pool_initialized = False\<rparr> example_config
          (orders_warehouse [id_column]) (Some (lit ''public'')))
     = Inl (Exn (lit ''Exception'') False (lit ''Connection pool not initialized'')) \<and>
   get_schema_info example_unicode (cached_generator (orders_snapshot [id_info]) 0)
       \<lparr>pool_initialized = False\<rparr> example_config (orders_warehouse [id_column]) 1000
     = ([], cached_generator [] 1000, [SchemaFetch (Some (lit ''public''))]) \<and>
   get_schema_info example_unicode fresh_generator
       \<lparr>pool_initialized = False\<rparr> example_config (orders_warehouse [id_column]) 1000
     = ([], cached_generator [] 1000, [SchemaFetch (Some (lit ''public''))])"
  by (simp add: get_schema_info_def refresh_schema_def get_schema_def
      no_pool_get_schema_try ascii_tables_example
      cached_generator_def fresh_generator_def example_config_def cache_duration_def)

text \<open>
  C3, amended. When the fetch fails and the cache does not hold, \<open>_get_schema_info\<close>
  raises nothing: it returns the empty snapshot and stores it with the time of the
  call, in place of whatever snapshot was stored. The request ends with the envelope
  \<open>Schema retrieval failed\<close>, and for the next 300 seconds the cache serves the empty
  snapshot without a fetch.
\<close>

theorem failed_fetch_gives_empty_snapshot:
  assumes "fst (get_schema_try U cl cfg wh (Some (REDSHIFT_SCHEMA cfg))) = Inl e"
    and "\<not> cache_fresh g now"
  shows "\<exists>tr. get_schema_info U g cl cfg wh now =
        ([], g\<lparr>schema_cache := Some [], schema_cache_time := Some now\<rparr>, tr) \<and>
      schema_fetches tr = 1 \<and>
      generate_and_execute U g cl cfg wh br db t0 now t1 =
        (\<lparr>response =
            lit ''Unable to retrieve database schema. Please check your RedShift connection.'',
          sql_query = None, results = [], execution_time = t1 - t0,
          error = Some (lit ''Schema retrieval failed'')\<rparr>,
         g\<lparr>schema_cache := Some [], schema_cache_time := Some now\<rparr>, tr) \<and>
      (later - now < 300 \<longrightarrow>
         get_schema_info U (g\<lparr>schema_cache := Some [], schema_cache_time := Some now\<rparr>)
             cl' cfg' wh' later =
           ([], g\<lparr>schema_cache := Some [], schema_cache_time := Some now\<rparr>, []))"
proof -
  let ?g' = "g\<lparr>schema_cache := Some [], schema_cache_time := Some now\<rparr>"
  obtain s tr where gs: "get_schema U cl cfg wh (Some (REDSHIFT_SCHEMA cfg)) = (s, tr)"
    by (cases "get_schema U cl cfg wh (Some (REDSHIFT_SCHEMA cfg))") auto
  have s: "s = []" using get_schema_failed [OF assms(1)] gs by simp
  have i: "get_schema_info U g cl cfg wh now = ([], ?g', tr)"
    using assms(2) gs s by (simp add: get_schema_info_eq refresh_schema_def)
  have n: "schema_fetches tr = 1" by (rule schema_fetches_get_schema [OF gs])
  have e: "generate_and_execute U g cl cfg wh br db t0 now t1 =
        (\<lparr>response =
            lit ''Unable to retrieve database schema. Please check your RedShift connection.'',
          sql_query = None, results = [], execution_time = t1 - t0,
          error = Some (lit ''Schema retrieval failed'')\<rparr>, ?g', tr)"
    by (simp add: generate_and_execute_def i)
  have c: "get_schema_info U ?g' cl' cfg' wh' later = ([], ?g', [])" if "later - now < 300"
    using that by (simp add: get_schema_info_def cache_duration_def)
  show ?thesis using i n e c by blast
qed

theorem failed_fetch_gives_empty_snapshot_witness:
  "fst (get_schema_try example_unicode \<lparr>pool_initialized = False\<rparr> example_config
          (orders_warehouse [id_column]) (Some (REDSHIFT_SCHEMA example_config)))
     = Inl (Exn (lit ''Exception'') False (lit ''Connection pool not initialized'')) \<and>
   \<not> cache_fresh (cached_generator (orders_snapshot [id_info]) 0) 1000 \<and>
   get_schema_info example_unicode (cached_generator (orders_snapshot [id_info]) 0)
       \<lparr>pool_initialized = False\<rparr> example_config (orders_warehouse [id_column]) 1000
     = ([], cached_generator [] 1000, [SchemaFetch (Some (lit ''public''))]) \<and>
   (1100::real) - 1000 < 300 \<and>
   get_schema_info example_unicode (cached_generator [] 1000) example_client example_config
       (orders_warehouse [id_column]) 1100
     = ([], cached_generator [] 1000, [])"
proof -
  let ?cl = "\<lparr>pool_initialized = False\<rparr>" and ?wh = "orders_warehouse [id_column]"
  let ?g = "cached_generator (orders_snapshot [id_info]) 0"
  have u: "?g\<lparr>schema_cache := Some [], schema_cache_time := Some 1000\<rparr> = cached_generator [] 1000"
    by (simp add: cached_generator_def)
  have h1: "fst (get_schema_try example_unicode ?cl example_config ?wh
        (Some (REDSHIFT_SCHEMA example_config)))
      = Inl (Exn (lit ''Exception'') False (lit ''Connection pool not initialized''))"
    by (simp add: no_pool_get_schema_try ascii_tables_example)
  have h2: "\<not> cache_fresh ?g 1000"
    by (simp add: cache_fresh_def cached_generator_def cache_duration_def)
  have t: "(1100::real) - 1000 < 300" by simp
  have a: "get_schema_info example_unicode ?g ?cl example_config ?wh 1000
      = ([], cached_generator [] 1000, [SchemaFetch (Some (lit ''public''))])"
    by (simp add: get_schema_info_def refresh_schema_def get_schema_def
      no_pool_get_schema_try ascii_tables_example
        cached_generator_def example_config_def cache_duration_def)
  from failed_fetch_gives_empty_snapshot [OF h1 h2, where later = 1100
      and cl' = example_client and cfg' = example_config and wh' = ?wh] t
  have "get_schema_info example_unicode (cached_generator [] 1000) example_client example_config ?wh 1100
      = ([], cached_generator [] 1000, [])"
    unfolding u by blast
  with h1 h2 a t show ?thesis by blast
qed



section \<open>Properties of the envelope of a failed request\<close>

lemma generate_and_execute_failure:
  assumes "get_schema_info U g cl cfg wh ts = (s, g', tr)" and "s \<noteq> []"
    and "generate_sql br = Inr generated"
    and "execute_query U cl cfg db (sanitize_sql generated) None None = (Inl e, tr')"
  shows "generate_and_execute U g cl cfg wh br db t0 ts t1
     = (failure_envelope e (t1 - t0), g', tr @ tr')"
  using assms by (simp add: generate_and_execute_def Let_def)

lemma example_generated:
  "generate_sql example_bedrock = Inr (lit ''SELECT id FROM orders -- all of them'')"
  by code_simp

lemma example_sanitized:
  "sanitize_sql (lit ''SELECT id FROM orders -- all of them'') = lit ''SELECT id FROM orders''"
  by code_simp

lemma example_failed_request:
  "generate_and_execute example_unicode (cached_generator (orders_snapshot [id_info]) 0) example_client
      example_config (orders_warehouse [id_column]) example_bedrock (db_failing e) 9 10 11
     = (failure_envelope e 2, cached_generator (orders_snapshot [id_info]) 0, failure_trace)"
proof -
  let ?g = "cached_generator (orders_snapshot [id_info]) 0"
  have i: "get_schema_info example_unicode ?g example_client example_config
        (orders_warehouse [id_column]) 10
      = (orders_snapshot [id_info], ?g, [])"
    by (simp add: get_schema_info_def cached_generator_def cache_duration_def)
  have n: "orders_snapshot [id_info] \<noteq> []" by (simp add: orders_snapshot_def)
  have v: "skips_validation example_unicode (lit ''SELECT id FROM orders'') \<or>
      fst (validate_sql_safety example_unicode (lit ''SELECT id FROM orders''))" by code_simp
  have q: "execute_query example_unicode example_client example_config (db_failing e)
      (sanitize_sql (lit ''SELECT id FROM orders -- all of them'')) None None = (Inl e, failure_trace)"
    unfolding example_sanitized by (rule failing_run [OF v])
  show ?thesis
    using generate_and_execute_failure [OF i n example_generated q, where ?t0.0 = 9 and ?t1.0 = 11]
    by simp
qed

text \<open>
  C7, as stated: after a failure of the database no field of the envelope holds the text
  of the error, and two failures that differ in that text give the same envelope. The
  field \<open>error\<close> is \<open>str(e)\<close>: two refusals of a connection with different texts give
  envelopes that differ in it.
\<close>

theorem error_text_counterexample:
  "error (fst (generate_and_execute example_unicode (cached_generator (orders_snapshot [id_info]) 0)
      example_client example_config (orders_warehouse [id_column]) example_bedrock
      (db_failing (Exn (lit ''OperationalError'') False
         (lit ''could not connect to server 10.0.3.17 port 5439: Connection refused''))) 9 10 11))
     = Some (lit ''could not connect to server 10.0.3.17 port 5439: Connection refused'') \<and>
   fst (generate_and_execute example_unicode (cached_generator (orders_snapshot [id_info]) 0)
      example_client example_config (orders_warehouse [id_column]) example_bedrock
      (db_failing (Exn (lit ''OperationalError'') False
         (lit ''could not connect to server 10.0.3.17 port 5439: Connection refused''))) 9 10 11)
     \<noteq>
   fst (generate_and_execute example_unicode (cached_generator (orders_snapshot [id_info]) 0)
      example_client example_config (orders_warehouse [id_column]) example_bedrock
      (db_failing (Exn (lit ''OperationalError'') False
         (lit ''FATAL: password authentication failed for user admin''))) 9 10 11)"
  by (simp add: example_failed_request failure_envelope_def)

text \<open>
  C7, amended. When the execution of the generated query fails with an exception that
  is not a \<open>ValueError\<close>, the envelope has no SQL and no rows, its field \<open>response\<close> is
  one of four fixed messages, chosen by the name of the class of the exception alone,
  and its field \<open>error\<close> is the text of the exception.
\<close>

theorem database_failure_envelope:
  assumes "fst (get_schema_info U g cl cfg wh ts) \<noteq> []"
    and "generate_sql br = Inr generated"
    and "fst (execute_query U cl cfg db (sanitize_sql generated) None None) = Inl e"
    and "\<not> is_value_error e"
  shows "fst (generate_and_execute U g cl cfg wh br db t0 ts t1) =
      \<lparr>response = format_error_message e True, sql_query = None, results = [],
        execution_time = t1 - t0, error = Some (exn_str e)\<rparr> \<and>
    format_error_message e True \<in>
      {(lit ''Database connection error. Please check your connection settings.''),
       lit ''Invalid SQL query generated. Please try rephrasing your question.'',
       lit ''Query took too long to execute. Please try a more specific question.'',
       lit ''An error occurred while processing your request. Please try again.''} \<and>
    (exn_type e' = exn_type e \<longrightarrow> format_error_message e' True = format_error_message e True)"
proof -
  obtain s g' tr where i: "get_schema_info U g cl cfg wh ts = (s, g', tr)"
    by (cases "get_schema_info U g cl cfg wh ts") auto
  obtain r tr' where q: "execute_query U cl cfg db (sanitize_sql generated) None None = (r, tr')"
    by (cases "execute_query U cl cfg db (sanitize_sql generated) None None") auto
  have n: "s \<noteq> []" using assms(1) i by simp
  have r: "r = Inl e" using assms(3) q by simp
  have "generate_and_execute U g cl cfg wh br db t0 ts t1
      = (failure_envelope e (t1 - t0), g', tr @ tr')"
    by (rule generate_and_execute_failure [OF i n assms(2) q [unfolded r]])
  then have a: "fst (generate_and_execute U g cl cfg wh br db t0 ts t1) =
      \<lparr>response = format_error_message e True, sql_query = None, results = [],
        execution_time = t1 - t0, error = Some (exn_str e)\<rparr>"
    using assms(4) by (simp add: failure_envelope_def)
  have b: "format_error_message e True \<in>
      {(lit ''Database connection error. Please check your connection settings.''),
       lit ''Invalid SQL query generated. Please try rephrasing your question.'',
       lit ''Query took too long to execute. Please try a more specific question.'',
       lit ''An error occurred while processing your request. Please try again.''}"
    by (simp add: format_error_message_def friendly_messages_def)
  have c: "exn_type e' = exn_type e \<Longrightarrow> format_error_message e' True = format_error_message e True"
    by (simp add: format_error_message_def)
  show ?thesis using a b c by blast
qed

theorem database_failure_envelope_witness:
  "fst (get_schema_info example_unicode (cached_generator (orders_snapshot [id_info]) 0) example_client
         example_config (orders_warehouse [id_column]) 10) \<noteq> [] \<and>
   generate_sql example_bedrock = Inr (lit ''SELECT id FROM orders -- all of them'') \<and>
   fst (execute_query example_unicode example_client example_config
         (db_failing (Exn (lit ''OperationalError'') False
            (lit ''server closed the connection unexpectedly'')))
         (sanitize_sql (lit ''SELECT id FROM orders -- all of them'')) None None)
     = Inl (Exn (lit ''OperationalError'') False (lit ''server closed the connection unexpectedly'')) \<and>
   \<not> is_value_error (Exn (lit ''OperationalError'') False
        (lit ''server closed the connection unexpectedly'')) \<and>
   fst (generate_and_execute example_unicode (cached_generator (orders_snapshot [id_info]) 0) example_client
         example_config (orders_warehouse [id_column]) example_bedrock
         (db_failing (Exn (lit ''OperationalError'') False
            (lit ''server closed the connection unexpectedly'')))
         9 10 11)
     = \<lparr>response = lit ''Database connection error. Please check your connection settings.'',
        sql_query = None, results = [], execution_time = 2,
        error = Some (lit ''server closed the connection unexpectedly'')\<rparr>"
proof -
  let ?e = "Exn (lit ''OperationalError'') False (lit ''server closed the connection unexpectedly'')"
  let ?g = "cached_generator (orders_snapshot [id_info]) 0"
  have h1: "fst (get_schema_info example_unicode ?g example_client example_config
      (orders_warehouse [id_column]) 10) \<noteq> []"
    by (simp add: get_schema_info_def cached_generator_def cache_duration_def orders_snapshot_def)
  have v: "skips_validation example_unicode (lit ''SELECT id FROM orders'') \<or>
      fst (validate_sql_safety example_unicode (lit ''SELECT id FROM orders''))" by code_simp
  have h3: "fst (execute_query example_unicode example_client example_config (db_failing ?e)
      (sanitize_sql (lit ''SELECT id FROM orders -- all of them'')) None None) = Inl ?e"
    unfolding example_sanitized by (simp add: failing_run [OF v])
  have h4: "\<not> is_value_error ?e" by simp
  have m: "format_error_message ?e True
      = lit ''Database connection error. Please check your connection settings.''"
    by (simp add: format_error_message_def friendly_messages_def)
  from database_failure_envelope [OF h1 example_generated h3 h4, where ?t0.0 = 9 and ?t1.0 = 11]
  have "fst (generate_and_execute example_unicode ?g example_client example_config
          (orders_warehouse [id_column])
          example_bedrock (db_failing ?e) 9 10 11)
     = \<lparr>response = lit ''Database connection error. Please check your connection settings.'',
        sql_query = None, results = [], execution_time = 2,
        error = Some (lit ''server closed the connection unexpectedly'')\<rparr>"
    unfolding m by simp
  with h1 example_generated h3 h4 show ?thesis by blast
qed


end
